theory Spec2Isabelle
  imports Main "HOL-Library.Word"
begin

section \<open>The fixed-capacity string \<open>mp::basic_inplace_string\<close>\<close>

text \<open>
  The class template \<open>basic_inplace_string<CharT, MaxSize, Traits>\<close> of
  \<^verbatim>\<open>include/mp/inplace_string.h\<close> has one data member, the array
  \<open>std::array<CharT, MaxSize + 1> chars_\<close>. An object is modelled by the contents of that
  array, a list of characters; the template parameter \<open>MaxSize\<close> is the argument \<open>M\<close> of every
  function. A character is a machine word \<open>'a word\<close>: the character types of one, two and four
  bytes are \<open>8 word\<close>, \<open>16 word\<close> and \<open>32 word\<close>, and for them \<open>impl_size_type_helper\<close>
  picks the unsigned integer of the same width, so both casts between \<open>CharT\<close> and
  \<open>impl_size_type\<close> keep the bits of the word.

  Values of \<open>size_type\<close> (\<open>std::size_t\<close>, 64 bits) are natural numbers, and where the
  code adds or subtracts them the wrap-around modulo \<open>2 ^ 64\<close> is written out.
  A character sequence handed over as a pointer and a count, as a view, as an iterator range
  or as an initializer list is the list of its characters; the count is the length of the list.
  The source of an assignment is a \<open>source\<close>: such a list, held in memory that the call does
  not write, or a range of the object's own array, which the call reads where it reads it,
  after the length setter has stored the terminator and the last slot. The arguments of
  \<open>append\<close> and of the constructors are lists.
\<close>

subsection \<open>Outcomes of a call\<close>

datatype exn = length_error | out_of_range

text \<open>
  A member function returns normally with a value and the contents of the array, or it
  throws, and then \<open>Throws\<close> holds the contents of the array at that moment. A failed
  \<open>assert\<close> aborts the program, an exception that reaches the boundary of a \<open>noexcept\<close>
  function calls \<open>std::terminate\<close>, and an access outside the array is undefined.
\<close>

datatype ('s, 'r) outcome =
    Returns 'r 's
  | Throws exn 's
  | Assert_Failed
  | Terminate
  | Undefined

definition and_then ::
  "('s, 'r) outcome \<Rightarrow> ('r \<Rightarrow> 's \<Rightarrow> ('s, 'q) outcome) \<Rightarrow> ('s, 'q) outcome" where
  "and_then r f =
     (case r of
        Returns v s \<Rightarrow> f v s
      | Throws e s \<Rightarrow> Throws e s
      | Assert_Failed \<Rightarrow> Assert_Failed
      | Terminate \<Rightarrow> Terminate
      | Undefined \<Rightarrow> Undefined)"

definition noexcept :: "('s, 'r) outcome \<Rightarrow> ('s, 'r) outcome" where
  "noexcept r = (case r of Throws e s \<Rightarrow> Terminate | _ \<Rightarrow> r)"

subsection \<open>Arithmetic of \<open>size_type\<close>\<close>

definition size_type_modulus :: nat where
  "size_type_modulus = 2 ^ 64"

definition npos :: nat where
  "npos = size_type_modulus - 1"

definition size_type_add :: "nat \<Rightarrow> nat \<Rightarrow> nat" where
  "size_type_add a b = (a + b) mod size_type_modulus"

definition size_type_sub :: "nat \<Rightarrow> nat \<Rightarrow> nat" where
  "size_type_sub a b = (a + size_type_modulus - b mod size_type_modulus) mod size_type_modulus"

subsection \<open>The character traits\<close>

text \<open>
  \<open>Traits::length\<close> counts the characters before the first zero; \<open>Traits::copy (p, s, n)\<close>
  and \<open>Traits::assign (p, n, c)\<close> write \<open>n\<close> characters from \<open>p\<close> on. The destination is
  always \<open>data () + off\<close>, so both take the array and the offset, and \<open>write_at\<close> is the array
  with the block stored from \<open>off\<close> on; a write that would leave the array is undefined.
\<close>

definition traits_length :: "'a::len word list \<Rightarrow> nat" where
  "traits_length s = length (takeWhile (\<lambda>c. c \<noteq> 0) s)"

definition write_at :: "'c list \<Rightarrow> nat \<Rightarrow> 'c list \<Rightarrow> 'c list" where
  "write_at cs off blk = take off cs @ blk @ drop (off + length blk) cs"

definition traits_copy ::
  "'a::len word list \<Rightarrow> nat \<Rightarrow> 'a word list \<Rightarrow> ('a word list, unit) outcome" where
  "traits_copy cs off s =
     (if off + length s \<le> length cs then Returns () (write_at cs off s) else Undefined)"

definition traits_assign ::
  "'a::len word list \<Rightarrow> nat \<Rightarrow> nat \<Rightarrow> 'a word \<Rightarrow> ('a word list, unit) outcome" where
  "traits_assign cs off n c =
     (if off + n \<le> length cs then Returns () (write_at cs off (replicate n c)) else Undefined)"

text \<open>
  The pointer and the count that \<open>assign\<close> receives. \<open>Outside s\<close> points to the characters
  \<open>s\<close> in memory outside the array of the object, and the count is their number.
  \<open>Inside off n\<close> is the pointer \<open>data () + off\<close> into the object's own array with the count
  \<open>n\<close>. \<open>source_chars\<close> is the sequence a source designates while the array is \<open>cs\<close>.
  \<open>Traits::copy (s, p, n)\<close> performs \<open>s[i] = p[i]\<close> for each \<open>i\<close> below \<open>n\<close> in turn, which
  \<open>copy_forward\<close> does inside one array. The destination of \<open>assign\<close> is the first slot,
  so no slot is read after it has been written by the copy, also where the two ranges
  overlap; a range that leaves the array is undefined.
\<close>

datatype 'c source = Outside "'c list" | Inside nat nat

definition count_of :: "'c source \<Rightarrow> nat" where
  "count_of src = (case src of Outside s \<Rightarrow> length s | Inside off n \<Rightarrow> n)"

definition source_chars :: "'c list \<Rightarrow> 'c source \<Rightarrow> 'c list" where
  "source_chars cs src = (case src of Outside s \<Rightarrow> s | Inside off n \<Rightarrow> take n (drop off cs))"

definition first_n :: "nat \<Rightarrow> 'c source \<Rightarrow> 'c source" where
  "first_n k src = (case src of Outside s \<Rightarrow> Outside (take k s) | Inside off n \<Rightarrow> Inside off k)"

fun copy_forward :: "'c list \<Rightarrow> nat \<Rightarrow> nat \<Rightarrow> nat \<Rightarrow> 'c list" where
  "copy_forward cs d p 0 = cs"
| "copy_forward cs d p (Suc n) = copy_forward (cs[d := cs ! p]) (Suc d) (Suc p) n"

definition traits_copy_from ::
  "'a::len word list \<Rightarrow> nat \<Rightarrow> 'a word source \<Rightarrow> ('a word list, unit) outcome" where
  "traits_copy_from cs doff src =
     (case src of
        Outside s \<Rightarrow> traits_copy cs doff s
      | Inside off n \<Rightarrow>
          if doff + n \<le> length cs \<and> off + n \<le> length cs
          then Returns () (copy_forward cs doff off n)
          else Undefined)"

subsection \<open>Capacity\<close>

text \<open>
  \<open>size ()\<close> is \<open>max_size () - static_cast<impl_size_type> (chars_.back ())\<close>, a subtraction
  of \<open>size_type\<close>. The setter \<open>size (s)\<close> checks, writes the terminator and then the last slot.
\<close>

definition max_size :: "nat \<Rightarrow> nat" where
  "max_size M = M"

definition size_get :: "nat \<Rightarrow> 'a::len word list \<Rightarrow> nat" where
  "size_get M cs = size_type_sub (max_size M) (unat (last cs))"

definition size_set :: "nat \<Rightarrow> 'a::len word list \<Rightarrow> nat \<Rightarrow> ('a word list, unit) outcome" where
  "size_set M cs s =
     (if s > max_size M then Throws length_error cs
      else Returns () ((cs[s := 0])[length cs - 1 := of_nat (max_size M - s)]))"

definition resize ::
  "nat \<Rightarrow> 'a::len word list \<Rightarrow> nat \<Rightarrow> 'a word \<Rightarrow> ('a word list, unit) outcome" where
  "resize M cs n c =
     (let sz = size_get M cs in
      and_then (size_set M cs n)
        (\<lambda>_ cs1. if n > sz then traits_assign cs1 sz (n - sz) c else Returns () cs1))"

definition resize_default :: "nat \<Rightarrow> 'a::len word list \<Rightarrow> nat \<Rightarrow> ('a word list, unit) outcome" where
  "resize_default M cs n = resize M cs n 0"

definition clear :: "nat \<Rightarrow> 'a::len word list \<Rightarrow> ('a word list, unit) outcome" where
  "clear M cs = size_set M cs 0"

definition empty_str :: "nat \<Rightarrow> 'a::len word list \<Rightarrow> bool" where
  "empty_str M cs \<longleftrightarrow> size_get M cs = 0"

subsection \<open>Element access and conversions\<close>

text \<open>
  \<open>operator[]\<close> is \<open>*(begin () + pos)\<close> with no check; \<open>at\<close> checks \<open>pos\<close> against
  \<open>size ()\<close> first. Both return a reference to the slot \<open>pos\<close>, here the character there.
  The view \<open>{data (), size ()}\<close> and the range from \<open>begin ()\<close> to \<open>end ()\<close> are the first
  \<open>size ()\<close> characters of the array; \<open>to_string\<close> copies them.
\<close>

definition index_op :: "'a::len word list \<Rightarrow> nat \<Rightarrow> ('a word list, 'a word) outcome" where
  "index_op cs pos = (if pos < length cs then Returns (cs ! pos) cs else Undefined)"

definition at :: "nat \<Rightarrow> 'a::len word list \<Rightarrow> nat \<Rightarrow> ('a word list, 'a word) outcome" where
  "at M cs pos =
     (if pos \<ge> size_get M cs then Throws out_of_range cs else index_op cs pos)"

definition to_sv :: "nat \<Rightarrow> 'a::len word list \<Rightarrow> 'a word list" where
  "to_sv M cs = take (size_get M cs) cs"

definition to_string :: "nat \<Rightarrow> 'a::len word list \<Rightarrow> 'a word list" where
  "to_string M cs = take (size_get M cs) cs"

definition c_str :: "'a::len word list \<Rightarrow> 'a word list" where
  "c_str cs = cs"

text \<open>
  \<open>std::basic_string_view::substr (pos, n)\<close> is a function of the C++ standard library,
  which the constructors and the overloads with an offset call. The standard
  (\<^verbatim>\<open>[string.view.ops]\<close>) has it throw \<open>std::out_of_range\<close> when \<open>pos > size ()\<close> and
  otherwise return the view of \<open>min n (size () - pos)\<close> characters from \<open>pos\<close> on.
\<close>

definition substr :: "'c list \<Rightarrow> nat \<Rightarrow> nat \<Rightarrow> exn + 'c list" where
  "substr sv pos n =
     (if pos > length sv then Inl out_of_range
      else Inr (take (min n (length sv - pos)) (drop pos sv)))"

text \<open>The same function on the view of a source: the view of a part of the array stays one.\<close>

definition substr_source :: "'c source \<Rightarrow> nat \<Rightarrow> nat \<Rightarrow> exn + 'c source" where
  "substr_source src pos n =
     (case src of
        Outside s \<Rightarrow>
          (case substr s pos n of Inl e \<Rightarrow> Inl e | Inr v \<Rightarrow> Inr (Outside v))
      | Inside off len \<Rightarrow>
          if pos > len then Inl out_of_range
          else Inr (Inside (off + pos) (min n (len - pos))))"

subsection \<open>Modifiers\<close>

text \<open>
  The argument \<open>ndebug\<close> says whether \<open>NDEBUG\<close> is defined, which compiles every \<open>assert\<close>
  out. \<open>append (s, n)\<close> adds the count to the size in \<open>size_type\<close>, sets the size and copies;
  \<open>append (n, c)\<close> is \<open>resize (size () + n, c)\<close> and \<open>push_back (c)\<close> is \<open>append (1, c)\<close>.
\<close>

definition append_ptr ::
  "nat \<Rightarrow> 'a::len word list \<Rightarrow> 'a word list \<Rightarrow> ('a word list, unit) outcome" where
  "append_ptr M cs s =
     (let sz = size_get M cs in
      and_then (size_set M cs (size_type_add sz (length s)))
        (\<lambda>_ cs1. traits_copy cs1 sz s))"

definition append_cstr ::
  "nat \<Rightarrow> 'a::len word list \<Rightarrow> 'a word list \<Rightarrow> ('a word list, unit) outcome" where
  "append_cstr M cs s = append_ptr M cs (take (traits_length s) s)"

definition append_sv ::
  "nat \<Rightarrow> 'a::len word list \<Rightarrow> 'a word list \<Rightarrow> ('a word list, unit) outcome" where
  "append_sv M cs sv = append_ptr M cs sv"

definition append_substr ::
  "nat \<Rightarrow> 'a::len word list \<Rightarrow> 'a word list \<Rightarrow> nat \<Rightarrow> nat \<Rightarrow> ('a word list, unit) outcome" where
  "append_substr M cs sv pos n =
     (case substr sv pos n of Inl e \<Rightarrow> Throws e cs | Inr v \<Rightarrow> append_sv M cs v)"

definition append_fill ::
  "nat \<Rightarrow> 'a::len word list \<Rightarrow> nat \<Rightarrow> 'a word \<Rightarrow> ('a word list, unit) outcome" where
  "append_fill M cs n c = resize M cs (size_type_add (size_get M cs) n) c"

definition append_range ::
  "nat \<Rightarrow> 'a::len word list \<Rightarrow> 'a word list \<Rightarrow> ('a word list, unit) outcome" where
  "append_range M cs s =
     (let sz = size_get M cs; count = length s in
      and_then (size_set M cs (size_type_add sz count))
        (\<lambda>_ cs1. traits_copy cs1 sz (take count s)))"

definition push_back :: "nat \<Rightarrow> 'a::len word list \<Rightarrow> 'a word \<Rightarrow> ('a word list, unit) outcome" where
  "push_back M cs c = append_fill M cs 1 c"

text \<open>
  \<open>assign (s, count)\<close> is \<open>noexcept\<close> and asserts \<open>count <= MaxSize\<close> before it sets the size
  and copies: the copy reads the source after \<open>size (count)\<close> has written the slot \<open>count\<close>
  and the last slot. \<open>assign (count, ch)\<close> has the same assertion and no \<open>noexcept\<close>; the
  iterator version has neither and copies \<open>size ()\<close> characters after setting the size.
  The overloads for a view, and for a view or an object with an offset and a count, pass
  the pointer and the size of the view on; the view of the object itself is
  \<open>Inside 0 (size ())\<close>.
\<close>

definition assign_ptr ::
  "bool \<Rightarrow> nat \<Rightarrow> 'a::len word list \<Rightarrow> 'a word source \<Rightarrow> ('a word list, unit) outcome" where
  "assign_ptr ndebug M cs src =
     noexcept
       (if \<not> ndebug \<and> \<not> count_of src \<le> M then Assert_Failed
        else and_then (size_set M cs (count_of src)) (\<lambda>_ cs1. traits_copy_from cs1 0 src))"

definition assign_cstr ::
  "bool \<Rightarrow> nat \<Rightarrow> 'a::len word list \<Rightarrow> 'a word list \<Rightarrow> ('a word list, unit) outcome" where
  "assign_cstr ndebug M cs s =
     noexcept (assign_ptr ndebug M cs (Outside (take (traits_length s) s)))"

definition assign_sv ::
  "bool \<Rightarrow> nat \<Rightarrow> 'a::len word list \<Rightarrow> 'a word source \<Rightarrow> ('a word list, unit) outcome" where
  "assign_sv ndebug M cs sv = assign_ptr ndebug M cs sv"

definition assign_substr ::
  "bool \<Rightarrow> nat \<Rightarrow> 'a::len word list \<Rightarrow> 'a word source \<Rightarrow> nat \<Rightarrow> nat \<Rightarrow>
   ('a word list, unit) outcome" where
  "assign_substr ndebug M cs sv pos count =
     (case substr_source sv pos count of
        Inl e \<Rightarrow> Throws e cs
      | Inr v \<Rightarrow> assign_sv ndebug M cs v)"

definition assign_fill ::
  "bool \<Rightarrow> nat \<Rightarrow> 'a::len word list \<Rightarrow> nat \<Rightarrow> 'a word \<Rightarrow> ('a word list, unit) outcome" where
  "assign_fill ndebug M cs count ch =
     (if \<not> ndebug \<and> \<not> count < npos then Assert_Failed
      else if \<not> ndebug \<and> \<not> count \<le> M then Assert_Failed
      else and_then (size_set M cs count) (\<lambda>_ cs1. traits_assign cs1 0 count ch))"

definition assign_range ::
  "nat \<Rightarrow> 'a::len word list \<Rightarrow> 'a word source \<Rightarrow> ('a word list, unit) outcome" where
  "assign_range M cs src =
     and_then (size_set M cs (count_of src))
       (\<lambda>_ cs1. traits_copy_from cs1 0 (first_n (size_get M cs1) src))"

definition append_str ::
  "nat \<Rightarrow> 'a::len word list \<Rightarrow> nat \<Rightarrow> 'a word list \<Rightarrow> ('a word list, unit) outcome" where
  "append_str M cs M' str = append_ptr M cs (to_sv M' str)"

definition assign_str ::
  "bool \<Rightarrow> nat \<Rightarrow> 'a::len word list \<Rightarrow> nat \<Rightarrow> 'a word list \<Rightarrow> ('a word list, unit) outcome" where
  "assign_str ndebug M cs M' str = assign_ptr ndebug M cs (Outside (to_sv M' str))"

definition assign_char ::
  "bool \<Rightarrow> nat \<Rightarrow> 'a::len word list \<Rightarrow> 'a word \<Rightarrow> ('a word list, unit) outcome" where
  "assign_char ndebug M cs c = noexcept (assign_fill ndebug M cs 1 c)"

definition copy_assign :: "'a::len word list \<Rightarrow> 'a word list \<Rightarrow> ('a word list, unit) outcome" where
  "copy_assign cs other = Returns () other"

definition swap :: "'a::len word list \<Rightarrow> 'a word list \<Rightarrow> 'a word list \<times> 'a word list" where
  "swap cs other = (other, cs)"

subsection \<open>Constructors\<close>

text \<open>
  The array of a new object is not initialised: a constructor runs on storage \<open>init\<close> of
  \<open>MaxSize + 1\<close> slots with any contents. The default constructor calls \<open>clear ()\<close>, the
  constructor from a pointer and a count calls \<open>assign\<close>, and the constructors with an offset
  go through \<open>substr\<close> of the view of their argument.
\<close>

definition ctor_default :: "nat \<Rightarrow> 'a::len word list \<Rightarrow> ('a word list, unit) outcome" where
  "ctor_default M init = noexcept (clear M init)"

definition ctor_ptr ::
  "bool \<Rightarrow> nat \<Rightarrow> 'a::len word list \<Rightarrow> 'a word list \<Rightarrow> ('a word list, unit) outcome" where
  "ctor_ptr ndebug M init s = noexcept (assign_ptr ndebug M init (Outside s))"

definition ctor_cstr ::
  "bool \<Rightarrow> nat \<Rightarrow> 'a::len word list \<Rightarrow> 'a word list \<Rightarrow> ('a word list, unit) outcome" where
  "ctor_cstr ndebug M init s = noexcept (ctor_ptr ndebug M init (take (traits_length s) s))"

definition ctor_fill ::
  "bool \<Rightarrow> nat \<Rightarrow> 'a::len word list \<Rightarrow> nat \<Rightarrow> 'a word \<Rightarrow> ('a word list, unit) outcome" where
  "ctor_fill ndebug M init n c = assign_fill ndebug M init n c"

definition ctor_range ::
  "nat \<Rightarrow> 'a::len word list \<Rightarrow> 'a word list \<Rightarrow> ('a word list, unit) outcome" where
  "ctor_range M init s = assign_range M init (Outside s)"

definition ctor_sv ::
  "bool \<Rightarrow> nat \<Rightarrow> 'a::len word list \<Rightarrow> 'a word list \<Rightarrow> ('a word list, unit) outcome" where
  "ctor_sv ndebug M init sv = ctor_ptr ndebug M init sv"

definition ctor_substr ::
  "bool \<Rightarrow> nat \<Rightarrow> 'a::len word list \<Rightarrow> 'a word list \<Rightarrow> nat \<Rightarrow> nat \<Rightarrow>
   ('a word list, unit) outcome" where
  "ctor_substr ndebug M init sv pos n =
     (case substr sv pos n of Inl e \<Rightarrow> Throws e init | Inr v \<Rightarrow> ctor_sv ndebug M init v)"

definition ctor_str_pos ::
  "bool \<Rightarrow> nat \<Rightarrow> 'a::len word list \<Rightarrow> nat \<Rightarrow> 'a word list \<Rightarrow> nat \<Rightarrow>
   ('a word list, unit) outcome" where
  "ctor_str_pos ndebug M init M' str pos = ctor_substr ndebug M init (to_sv M' str) pos npos"

definition ctor_str_pos_n ::
  "bool \<Rightarrow> nat \<Rightarrow> 'a::len word list \<Rightarrow> nat \<Rightarrow> 'a word list \<Rightarrow> nat \<Rightarrow> nat \<Rightarrow>
   ('a word list, unit) outcome" where
  "ctor_str_pos_n ndebug M init M' str pos n = ctor_substr ndebug M init (to_sv M' str) pos n"

subsection \<open>Relational operators\<close>

text \<open>
  \<open>std::equal\<close> and \<open>std::lexicographical_compare\<close> on two ranges, as the C++ standard
  specifies them: the first holds when the ranges have the same length and equal elements,
  the second walks both ranges and decides at the first pair of which one element is less
  than the other, and a range that ends first is less. The elements are compared with
  \<open>==\<close> and \<open><\<close> of \<open>CharT\<close>; whether \<open><\<close> reads the characters as signed is a property
  of the platform, the argument \<open>is_signed\<close>. The operators take two objects of one
  \<open>MaxSize\<close>.
\<close>

fun std_equal :: "'c list \<Rightarrow> 'c list \<Rightarrow> bool" where
  "std_equal [] [] = True"
| "std_equal (x # xs) (y # ys) = (x = y \<and> std_equal xs ys)"
| "std_equal _ _ = False"

fun std_lexicographical_compare :: "('c \<Rightarrow> 'c \<Rightarrow> bool) \<Rightarrow> 'c list \<Rightarrow> 'c list \<Rightarrow> bool" where
  "std_lexicographical_compare lt (x # xs) (y # ys) =
     (if lt x y then True
      else if lt y x then False
      else std_lexicographical_compare lt xs ys)"
| "std_lexicographical_compare lt [] (y # ys) = True"
| "std_lexicographical_compare lt xs [] = False"

definition char_less :: "bool \<Rightarrow> 'a::len word \<Rightarrow> 'a word \<Rightarrow> bool" where
  "char_less is_signed x y = (if is_signed then sint x < sint y else unat x < unat y)"

definition char_order :: "bool \<Rightarrow> ('a::len word \<times> 'a word) set" where
  "char_order is_signed = {(x, y). char_less is_signed x y}"

definition op_eq :: "nat \<Rightarrow> 'a::len word list \<Rightarrow> 'a word list \<Rightarrow> bool" where
  "op_eq M lhs rhs = std_equal (to_sv M lhs) (to_sv M rhs)"

definition op_ne :: "nat \<Rightarrow> 'a::len word list \<Rightarrow> 'a word list \<Rightarrow> bool" where
  "op_ne M lhs rhs = (\<not> op_eq M lhs rhs)"

definition op_lt :: "bool \<Rightarrow> nat \<Rightarrow> 'a::len word list \<Rightarrow> 'a word list \<Rightarrow> bool" where
  "op_lt is_signed M lhs rhs =
     std_lexicographical_compare (char_less is_signed) (to_sv M lhs) (to_sv M rhs)"

definition op_le :: "bool \<Rightarrow> nat \<Rightarrow> 'a::len word list \<Rightarrow> 'a word list \<Rightarrow> bool" where
  "op_le is_signed M lhs rhs = (\<not> op_lt is_signed M rhs lhs)"

definition op_gt :: "bool \<Rightarrow> nat \<Rightarrow> 'a::len word list \<Rightarrow> 'a word list \<Rightarrow> bool" where
  "op_gt is_signed M lhs rhs = op_lt is_signed M rhs lhs"

definition op_ge :: "bool \<Rightarrow> nat \<Rightarrow> 'a::len word list \<Rightarrow> 'a word list \<Rightarrow> bool" where
  "op_ge is_signed M lhs rhs = (\<not> op_lt is_signed M lhs rhs)"

subsection \<open>The invariant\<close>

text \<open>
  An array is the member of a \<open>basic_inplace_string<CharT, MaxSize>\<close> when it has
  \<open>MaxSize + 1\<close> slots and the \<open>static_assert\<close> of the class holds: \<open>MaxSize\<close> is at most the
  largest value of \<open>impl_size_type\<close>. The invariant of the class adds that the size is at most
  \<open>MaxSize\<close>, that the slot at the size holds the zero character and that the last slot holds
  \<open>MaxSize\<close> minus the size.
\<close>

definition instance_of :: "nat \<Rightarrow> 'a::len word list \<Rightarrow> bool" where
  "instance_of M cs \<longleftrightarrow>
     LENGTH('a) \<in> {8, 16, 32} \<and> M < 2 ^ LENGTH('a) \<and> length cs = M + 1"

definition invariant :: "nat \<Rightarrow> 'a::len word list \<Rightarrow> bool" where
  "invariant M cs \<longleftrightarrow>
     instance_of M cs \<and> size_get M cs \<le> M \<and> cs ! size_get M cs = 0 \<and>
     cs ! M = of_nat (M - size_get M cs)"

subsection \<open>The public operations\<close>

text \<open>
  The member functions that can change an object, and the two checked or unchecked reads
  that can fail, as commands on the array. The overloads that take another
  \<open>basic_inplace_string\<close> take its capacity and its array. The accessors \<open>operator[]\<close>,
  \<open>at\<close>, \<open>front\<close>, \<open>back\<close>, \<open>data\<close> and the iterators hand out references and pointers into
  the array without writing; a store through one of them is the caller's, not an operation
  of the class.
\<close>

datatype 'c operation =
    Op_size nat
  | Op_resize nat 'c
  | Op_resize_default nat
  | Op_clear
  | Op_index nat
  | Op_at nat
  | Op_append_ptr "'c list"
  | Op_append_cstr "'c list"
  | Op_append_sv "'c list"
  | Op_append_str nat "'c list"
  | Op_append_substr "'c list" nat nat
  | Op_append_fill nat 'c
  | Op_append_range "'c list"
  | Op_push_back 'c
  | Op_assign_ptr "'c source"
  | Op_assign_cstr "'c list"
  | Op_assign_sv "'c source"
  | Op_assign_str nat "'c list"
  | Op_assign_substr "'c source" nat nat
  | Op_assign_fill nat 'c
  | Op_assign_range "'c source"
  | Op_assign_char 'c
  | Op_copy_assign "'c list"
  | Op_swap "'c list"

definition discard :: "('s, 'r) outcome \<Rightarrow> ('s, unit) outcome" where
  "discard r = and_then r (\<lambda>_ s. Returns () s)"

fun exec ::
  "bool \<Rightarrow> nat \<Rightarrow> 'a::len word operation \<Rightarrow> 'a word list \<Rightarrow> ('a word list, unit) outcome" where
  "exec ndebug M (Op_size s) cs = size_set M cs s"
| "exec ndebug M (Op_resize n c) cs = resize M cs n c"
| "exec ndebug M (Op_resize_default n) cs = resize_default M cs n"
| "exec ndebug M Op_clear cs = clear M cs"
| "exec ndebug M (Op_index pos) cs = discard (index_op cs pos)"
| "exec ndebug M (Op_at pos) cs = discard (at M cs pos)"
| "exec ndebug M (Op_append_ptr s) cs = append_ptr M cs s"
| "exec ndebug M (Op_append_cstr s) cs = append_cstr M cs s"
| "exec ndebug M (Op_append_sv sv) cs = append_sv M cs sv"
| "exec ndebug M (Op_append_str M' str) cs = append_str M cs M' str"
| "exec ndebug M (Op_append_substr sv pos n) cs = append_substr M cs sv pos n"
| "exec ndebug M (Op_append_fill n c) cs = append_fill M cs n c"
| "exec ndebug M (Op_append_range s) cs = append_range M cs s"
| "exec ndebug M (Op_push_back c) cs = push_back M cs c"
| "exec ndebug M (Op_assign_ptr s) cs = assign_ptr ndebug M cs s"
| "exec ndebug M (Op_assign_cstr s) cs = assign_cstr ndebug M cs s"
| "exec ndebug M (Op_assign_sv sv) cs = assign_sv ndebug M cs sv"
| "exec ndebug M (Op_assign_str M' str) cs = assign_str ndebug M cs M' str"
| "exec ndebug M (Op_assign_substr sv pos n) cs = assign_substr ndebug M cs sv pos n"
| "exec ndebug M (Op_assign_fill n c) cs = assign_fill ndebug M cs n c"
| "exec ndebug M (Op_assign_range s) cs = assign_range M cs s"
| "exec ndebug M (Op_assign_char c) cs = assign_char ndebug M cs c"
| "exec ndebug M (Op_copy_assign other) cs = copy_assign cs other"
| "exec ndebug M (Op_swap other) cs = Returns () (fst (swap cs other))"

text \<open>The operands that are objects of the same class satisfy its invariant themselves.\<close>

fun operands_invariant :: "nat \<Rightarrow> 'a::len word operation \<Rightarrow> bool" where
  "operands_invariant M (Op_copy_assign other) = invariant M other"
| "operands_invariant M (Op_swap other) = invariant M other"
| "operands_invariant M _ = True"

datatype 'c constructor =
    Ctor_default
  | Ctor_copy "'c list"
  | Ctor_ptr "'c list"
  | Ctor_cstr "'c list"
  | Ctor_sv "'c list"
  | Ctor_substr "'c list" nat nat
  | Ctor_str_pos nat "'c list" nat
  | Ctor_str_pos_n nat "'c list" nat nat
  | Ctor_fill nat 'c
  | Ctor_range "'c list"

fun construct ::
  "bool \<Rightarrow> nat \<Rightarrow> 'a::len word constructor \<Rightarrow> 'a word list \<Rightarrow> ('a word list, unit) outcome" where
  "construct ndebug M Ctor_default init = ctor_default M init"
| "construct ndebug M (Ctor_copy other) init = copy_assign init other"
| "construct ndebug M (Ctor_ptr s) init = ctor_ptr ndebug M init s"
| "construct ndebug M (Ctor_cstr s) init = ctor_cstr ndebug M init s"
| "construct ndebug M (Ctor_sv sv) init = ctor_sv ndebug M init sv"
| "construct ndebug M (Ctor_substr sv pos n) init = ctor_substr ndebug M init sv pos n"
| "construct ndebug M (Ctor_str_pos M' str pos) init = ctor_str_pos ndebug M init M' str pos"
| "construct ndebug M (Ctor_str_pos_n M' str pos n) init =
     ctor_str_pos_n ndebug M init M' str pos n"
| "construct ndebug M (Ctor_fill n c) init = ctor_fill ndebug M init n c"
| "construct ndebug M (Ctor_range s) init = ctor_range M init s"

fun ctor_operands_invariant :: "nat \<Rightarrow> 'a::len word constructor \<Rightarrow> bool" where
  "ctor_operands_invariant M (Ctor_copy other) = invariant M other"
| "ctor_operands_invariant M _ = True"

section \<open>Properties of the operations\<close>

subsection \<open>Sizes and the length setter\<close>

lemma instance_of_bound:
  assumes "instance_of M (cs :: 'a::len word list)" shows "M < 2 ^ 32"
proof -
  from assms have "LENGTH('a) \<le> 32" and "M < 2 ^ LENGTH('a)"
    by (auto simp: instance_of_def)
  then have "(2::nat) ^ LENGTH('a) \<le> 2 ^ 32" by (intro power_increasing) auto
  with \<open>M < 2 ^ LENGTH('a)\<close> show ?thesis by linarith
qed

lemma instance_of_last: "instance_of M cs \<Longrightarrow> last cs = cs ! M"
  by (cases cs rule: rev_cases) (auto simp: instance_of_def nth_append)

lemma size_type_modulus_gt: "2 ^ 32 < size_type_modulus"
  by (simp add: size_type_modulus_def)

lemma size_type_sub_le:
  assumes "b \<le> a" and "a < size_type_modulus" shows "size_type_sub a b = a - b"
proof -
  have b: "b mod size_type_modulus = b" using assms by (intro mod_less) linarith
  have "a + size_type_modulus - b = (a - b) + size_type_modulus" using assms(1) by linarith
  then have "(a + size_type_modulus - b) mod size_type_modulus = (a - b) mod size_type_modulus"
    by (simp only: mod_add_self2)
  also have "\<dots> = a - b" using assms by (intro mod_less) linarith
  finally show ?thesis unfolding size_type_sub_def b .
qed

lemma size_type_sub_gt:
  assumes "a < b" and "b < size_type_modulus"
  shows "size_type_sub a b = a + size_type_modulus - b"
proof -
  have b: "b mod size_type_modulus = b" using assms by (intro mod_less)
  have "(a + size_type_modulus - b) mod size_type_modulus = a + size_type_modulus - b"
    using assms by (intro mod_less) linarith
  then show ?thesis unfolding size_type_sub_def b .
qed

lemma size_type_add_small:
  "a + b < size_type_modulus \<Longrightarrow> size_type_add a b = a + b"
  by (simp add: size_type_add_def)

lemma unat_slot_bound:
  fixes c :: "'a::len word"
  assumes "instance_of M (cs :: 'a word list)" shows "unat c < 2 ^ 32"
proof -
  from assms have "LENGTH('a) \<le> 32" by (auto simp: instance_of_def)
  then have "(2::nat) ^ LENGTH('a) \<le> 2 ^ 32" by (intro power_increasing) auto
  moreover have "unat c < 2 ^ LENGTH('a)" by simp
  ultimately show ?thesis by linarith
qed

lemma size_get_conv:
  assumes "instance_of M cs" and "unat (cs ! M) \<le> M"
  shows "size_get M cs = M - unat (cs ! M)"
proof -
  have "M < size_type_modulus"
    using instance_of_bound [OF assms(1)] size_type_modulus_gt by simp
  then show ?thesis
    using assms by (simp add: size_get_def max_size_def instance_of_last size_type_sub_le)
qed

lemma size_get_broken:
  assumes "instance_of M cs" and "M < unat (cs ! M)"
  shows "size_get M cs > M"
proof -
  have b: "unat (cs ! M) < size_type_modulus"
    using unat_slot_bound [OF assms(1), of "cs ! M"] size_type_modulus_gt by simp
  have "size_get M cs = M + size_type_modulus - unat (cs ! M)"
    using assms b by (simp add: size_get_def max_size_def instance_of_last size_type_sub_gt)
  then show ?thesis using b assms(2) by simp
qed

lemma size_get_le_iff:
  assumes "instance_of M cs"
  shows "size_get M cs \<le> M \<longleftrightarrow> unat (cs ! M) \<le> M"
  using size_get_conv [OF assms] size_get_broken [OF assms]
  by (cases "unat (cs ! M) \<le> M") auto

lemma unat_encode:
  assumes "instance_of M (cs :: 'a::len word list)" and "d \<le> M"
  shows "unat (of_nat d :: 'a word) = d"
  using assms by (simp add: instance_of_def unat_of_nat)

lemma size_set_returns:
  assumes "instance_of M cs" and "s \<le> M"
  shows "size_set M cs s = Returns () ((cs[s := 0])[M := of_nat (M - s)])"
  using assms by (simp add: size_set_def max_size_def instance_of_def)

lemma size_set_throws: "M < s \<Longrightarrow> size_set M cs s = Throws length_error cs"
  by (simp add: size_set_def max_size_def)

lemma instance_of_update [simp]: "instance_of M (cs[i := c]) = instance_of M cs"
  by (simp add: instance_of_def)

lemma size_get_after_set:
  assumes "instance_of M cs" and "s \<le> M"
  shows "size_get M ((cs[s := 0])[M := of_nat (M - s)]) = s"
proof -
  let ?cs = "(cs[s := 0])[M := of_nat (M - s)]"
  have i: "instance_of M ?cs" using assms by simp
  have n: "?cs ! M = of_nat (M - s)" using assms by (simp add: instance_of_def)
  have u: "unat (?cs ! M) = M - s" using unat_encode [OF assms(1), of "M - s"] n by simp
  show ?thesis using size_get_conv [OF i] u assms by simp
qed

lemma terminator_after_set:
  assumes "instance_of M (cs :: 'a::len word list)" and "s \<le> M"
  shows "((cs[s := 0])[M := of_nat (M - s)]) ! s = 0"
proof (cases "s = M")
  case True
  then show ?thesis using assms by (simp add: instance_of_def)
next
  case False
  then show ?thesis using assms by (simp add: instance_of_def)
qed

lemma invariantI:
  assumes "instance_of M cs" and "size_get M cs = s" and "s \<le> M" and "cs ! s = 0"
  shows "invariant M cs"
proof -
  have "unat (cs ! M) \<le> M" using assms size_get_le_iff [OF assms(1)] by simp
  then have "size_get M cs = M - unat (cs ! M)" using size_get_conv [OF assms(1)] by simp
  then have "M - size_get M cs = unat (cs ! M)" using \<open>unat (cs ! M) \<le> M\<close> by simp
  then have "of_nat (M - size_get M cs) = cs ! M" by simp
  then show ?thesis using assms by (simp add: invariant_def)
qed

lemma invariant_after_set:
  assumes "instance_of M cs" and "s \<le> M"
  shows "invariant M ((cs[s := 0])[M := of_nat (M - s)])"
  using assms size_get_after_set [OF assms] terminator_after_set [OF assms]
  by (intro invariantI [where s = s]) simp_all


subsection \<open>Writes into the array\<close>

lemma length_write_at:
  "off + length blk \<le> length cs \<Longrightarrow> length (write_at cs off blk) = length cs"
  by (simp add: write_at_def)

lemma nth_write_at:
  assumes "off + length blk \<le> length cs" and "i < length cs"
  shows "write_at cs off blk ! i =
           (if i < off then cs ! i else if i < off + length blk then blk ! (i - off) else cs ! i)"
  using assms by (auto simp: write_at_def nth_append add.commute)

lemma take_write_at: "n \<le> off \<Longrightarrow> off \<le> length cs \<Longrightarrow> take n (write_at cs off blk) = take n cs"
  by (simp add: write_at_def min_def)

lemma take_write_at_all:
  "off + length blk \<le> length cs \<Longrightarrow> take (off + length blk) (write_at cs off blk) = take off cs @ blk"
  by (simp add: write_at_def)

lemma write_at_frame:
  assumes "instance_of M cs" and "off + length blk \<le> s" and "s \<le> M"
  shows "instance_of M (write_at cs off blk)"
    and "write_at cs off blk ! M = cs ! M"
    and "write_at cs off blk ! s = cs ! s"
    and "size_get M (write_at cs off blk) = size_get M cs"
proof -
  have len: "length cs = M + 1" using assms(1) by (simp add: instance_of_def)
  have fits: "off + length blk \<le> length cs" using assms len by simp
  show i: "instance_of M (write_at cs off blk)"
    using assms(1) fits by (simp add: instance_of_def length_write_at)
  show m: "write_at cs off blk ! M = cs ! M"
    using assms len by (simp add: nth_write_at [OF fits])
  show "write_at cs off blk ! s = cs ! s"
    using assms len by (simp add: nth_write_at [OF fits])
  show "size_get M (write_at cs off blk) = size_get M cs"
    using m by (simp add: size_get_def instance_of_last [OF i] instance_of_last [OF assms(1)])
qed

lemma invariant_write_at:
  assumes "invariant M cs" and "off + length blk \<le> size_get M cs"
  shows "invariant M (write_at cs off blk)"
proof -
  have i: "instance_of M cs" and le: "size_get M cs \<le> M" and z: "cs ! size_get M cs = 0"
    using assms(1) by (simp_all add: invariant_def)
  note f = write_at_frame [OF i assms(2) le]
  show ?thesis
    using f z le by (intro invariantI [where s = "size_get M cs"]) simp_all
qed

lemma and_then_Returns [simp]: "and_then (Returns v s) f = f v s"
  by (simp add: and_then_def)

lemma and_then_Throws [simp]: "and_then (Throws e s) f = Throws e s"
  by (simp add: and_then_def)

lemma and_then_ReturnsD:
  "and_then r f = Returns v s \<Longrightarrow> \<exists>v1 s1. r = Returns v1 s1 \<and> f v1 s1 = Returns v s"
  by (cases r) (simp_all add: and_then_def)

lemma noexcept_ReturnsD: "noexcept r = Returns v s \<Longrightarrow> r = Returns v s"
  by (cases r) (simp_all add: noexcept_def)

lemma noexcept_Returns [simp]: "noexcept (Returns v s) = Returns v s"
  by (simp add: noexcept_def)

lemma size_set_ReturnsD:
  assumes "instance_of M cs" and "size_set M cs s = Returns v cs1"
  shows "s \<le> M" and "cs1 = (cs[s := 0])[M := of_nat (M - s)]"
    and "invariant M cs1" and "size_get M cs1 = s"
proof -
  show le: "s \<le> M" using assms(2) by (simp add: size_set_def max_size_def split: if_splits)
  show eq: "cs1 = (cs[s := 0])[M := of_nat (M - s)]"
    using assms(2) size_set_returns [OF assms(1) le] by simp
  show "invariant M cs1" using invariant_after_set [OF assms(1) le] eq by simp
  show "size_get M cs1 = s" using size_get_after_set [OF assms(1) le] eq by simp
qed

lemma traits_copy_ReturnsD:
  "traits_copy cs off blk = Returns v cs1 \<Longrightarrow>
     off + length blk \<le> length cs \<and> cs1 = write_at cs off blk"
  by (simp add: traits_copy_def split: if_splits)

lemma traits_assign_ReturnsD:
  "traits_assign cs off n c = Returns v cs1 \<Longrightarrow>
     off + n \<le> length cs \<and> cs1 = write_at cs off (replicate n c)"
  by (simp add: traits_assign_def split: if_splits)


lemma take_drop_update_outside:
  assumes "i < off \<or> off + n \<le> i"
  shows "take n (drop off (cs[i := x])) = take n (drop off cs)"
proof (cases "i < off")
  case True
  then show ?thesis by simp
next
  case False
  with assms have "off \<le> i" and "n \<le> i - off" by simp_all
  then show ?thesis by (simp add: drop_update_swap)
qed

lemma copy_forward_ahead:
  assumes "d \<le> p" and "p + n \<le> length cs"
  shows "copy_forward cs d p n = write_at cs d (take n (drop p cs))"
  using assms
proof (induction n arbitrary: cs d p)
  case 0
  then show ?case by (simp add: write_at_def)
next
  case (Suc n)
  let ?cs = "cs[d := cs ! p]"
  have p: "p < length cs" and d: "d < length cs" using Suc.prems by simp_all
  have blk: "take n (drop (Suc p) ?cs) = take n (drop (Suc p) cs)"
    using Suc.prems(1) by (intro take_drop_update_outside) simp
  have len: "length (take n (drop (Suc p) cs)) = n" using Suc.prems by simp
  have len': "length (take (Suc n) (drop p cs)) = Suc n" using Suc.prems by simp
  have "copy_forward cs d p (Suc n) = write_at ?cs (Suc d) (take n (drop (Suc p) ?cs))"
    using Suc.prems by (simp add: Suc.IH)
  also have "\<dots> = take (Suc d) ?cs @ take n (drop (Suc p) cs) @ drop (Suc d + n) cs"
    unfolding write_at_def blk len by simp
  also have "take (Suc d) ?cs = take d cs @ [cs ! p]"
    using d by (simp add: take_Suc_conv_app_nth)
  also have "(take d cs @ [cs ! p]) @ take n (drop (Suc p) cs) @ drop (Suc d + n) cs
      = write_at cs d (take (Suc n) (drop p cs))"
  proof -
    have "take (Suc n) (drop p cs) = cs ! p # take n (drop (Suc p) cs)"
      using p by (simp add: Cons_nth_drop_Suc [symmetric])
    then show ?thesis unfolding write_at_def len' by simp
  qed
  finally show ?case .
qed

lemma traits_copy_from_Returns_conj:
  assumes "traits_copy_from cs 0 src = Returns v cs1"
  shows "cs1 = write_at cs 0 (source_chars cs src) \<and>
         length (source_chars cs src) = count_of src"
proof (cases src)
  case (Outside s)
  with assms show ?thesis
    by (simp add: traits_copy_from_def source_chars_def count_of_def traits_copy_ReturnsD)
next
  case (Inside off n)
  with assms have fits: "off + n \<le> length cs" and r: "cs1 = copy_forward cs 0 off n"
    by (simp_all add: traits_copy_from_def split: if_splits)
  have "cs1 = write_at cs 0 (take n (drop off cs))"
    using r copy_forward_ahead [OF _ fits, of 0] by simp
  then show ?thesis using fits Inside by (simp add: source_chars_def count_of_def)
qed

lemma traits_copy_from_ReturnsD:
  assumes "traits_copy_from cs 0 src = Returns v cs1"
  shows "cs1 = write_at cs 0 (source_chars cs src)"
    and "length (source_chars cs src) = count_of src"
  using traits_copy_from_Returns_conj [OF assms] by simp_all

lemma first_n_count_of [simp]: "first_n (count_of src) src = src"
  by (cases src) (simp_all add: first_n_def count_of_def)

subsection \<open>Each operation keeps the invariant\<close>

lemma instance_of_fits_size_type:
  assumes "instance_of M cs" shows "M + 1 < size_type_modulus"
  using instance_of_bound [OF assms] size_type_modulus_gt by linarith

lemma resize_invariant:
  assumes "invariant M cs" and "resize M cs n c = Returns v cs'"
  shows "invariant M cs' \<and> size_get M cs' = n"
proof -
  have i: "instance_of M cs" using assms(1) by (simp add: invariant_def)
  from assms(2) obtain v1 cs1 where
    set: "size_set M cs n = Returns v1 cs1" and
    fill: "(if n > size_get M cs then traits_assign cs1 (size_get M cs) (n - size_get M cs) c
            else Returns () cs1) = Returns v cs'"
    unfolding resize_def Let_def by (blast dest: and_then_ReturnsD)
  note s1 = size_set_ReturnsD [OF i set]
  show ?thesis
  proof (cases "n > size_get M cs")
    case True
    with fill have cs': "cs' = write_at cs1 (size_get M cs) (replicate (n - size_get M cs) c)"
      by (simp add: traits_assign_ReturnsD)
    have fits: "size_get M cs + length (replicate (n - size_get M cs) c) \<le> size_get M cs1"
      using True s1(4) by simp
    have i1: "instance_of M cs1" using s1(3) by (simp add: invariant_def)
    have "size_get M cs' = size_get M cs1"
      unfolding cs' using fits s1(1,4) by (intro write_at_frame(4) [OF i1, where s = n]) simp_all
    then show ?thesis using invariant_write_at [OF s1(3) fits] s1(4) cs' by simp
  next
    case False
    with fill s1 show ?thesis by simp
  qed
qed

lemma append_ptr_invariant:
  assumes "invariant M cs" and "append_ptr M cs s = Returns v cs'"
  shows "invariant M cs' \<and> size_get M cs' = size_get M cs + length s"
proof -
  have i: "instance_of M cs" and le: "size_get M cs \<le> M"
    using assms(1) by (simp_all add: invariant_def)
  let ?n = "size_type_add (size_get M cs) (length s)"
  from assms(2) obtain v1 cs1 where
    set: "size_set M cs ?n = Returns v1 cs1" and
    copy: "traits_copy cs1 (size_get M cs) s = Returns v cs'"
    unfolding append_ptr_def Let_def by (blast dest: and_then_ReturnsD)
  note s1 = size_set_ReturnsD [OF i set]
  have i1: "instance_of M cs1" using s1(3) by (simp add: invariant_def)
  from copy have fits0: "size_get M cs + length s \<le> length cs1"
    and cs': "cs' = write_at cs1 (size_get M cs) s"
    by (simp_all add: traits_copy_ReturnsD)
  have "size_get M cs + length s \<le> M + 1" using fits0 i1 by (simp add: instance_of_def)
  then have "size_get M cs + length s < size_type_modulus"
    using instance_of_fits_size_type [OF i] by linarith
  then have n: "?n = size_get M cs + length s" by (rule size_type_add_small)
  have fits: "size_get M cs + length s \<le> size_get M cs1" using s1(4) n by simp
  have "size_get M cs' = size_get M cs1"
    unfolding cs' using fits s1(1,4) by (intro write_at_frame(4) [OF i1, where s = ?n]) simp_all
  then show ?thesis using invariant_write_at [OF s1(3) fits] s1(4) cs' n by simp
qed

lemma append_range_eq: "append_range M cs s = append_ptr M cs s"
  by (simp add: append_range_def append_ptr_def)

lemma append_fill_invariant:
  assumes "invariant M cs" and "append_fill M cs n c = Returns v cs'"
  shows "invariant M cs'"
  using assms resize_invariant unfolding append_fill_def by blast

lemma assign_ptr_invariant:
  assumes "instance_of M cs" and "assign_ptr ndebug M cs src = Returns v cs'"
  shows "invariant M cs' \<and> size_get M cs' = count_of src"
proof -
  from assms(2) have "and_then (size_set M cs (count_of src))
      (\<lambda>_ cs1. traits_copy_from cs1 0 src) = Returns v cs'"
    unfolding assign_ptr_def by (auto dest!: noexcept_ReturnsD split: if_splits)
  then obtain v1 cs1 where
    set: "size_set M cs (count_of src) = Returns v1 cs1" and
    copy: "traits_copy_from cs1 0 src = Returns v cs'"
    by (blast dest: and_then_ReturnsD)
  note s1 = size_set_ReturnsD [OF assms(1) set]
  have i1: "instance_of M cs1" using s1(3) by (simp add: invariant_def)
  let ?blk = "source_chars cs1 src"
  note c = traits_copy_from_ReturnsD [OF copy]
  have fits: "0 + length ?blk \<le> size_get M cs1" using s1(4) c(2) by simp
  have "size_get M cs' = size_get M cs1"
    unfolding c(1) using s1(1) c(2)
    by (intro write_at_frame(4) [OF i1, where s = "count_of src"]) simp_all
  then show ?thesis using invariant_write_at [OF s1(3) fits] s1(4) c(1) by simp
qed

lemma assign_range_invariant:
  assumes "instance_of M cs" and "assign_range M cs src = Returns v cs'"
  shows "invariant M cs' \<and> size_get M cs' = count_of src"
proof -
  from assms(2) obtain v1 cs1 where
    set: "size_set M cs (count_of src) = Returns v1 cs1" and
    copy0: "traits_copy_from cs1 0 (first_n (size_get M cs1) src) = Returns v cs'"
    unfolding assign_range_def by (blast dest: and_then_ReturnsD)
  note s1 = size_set_ReturnsD [OF assms(1) set]
  have i1: "instance_of M cs1" using s1(3) by (simp add: invariant_def)
  from copy0 s1(4) have copy: "traits_copy_from cs1 0 src = Returns v cs'" by simp
  let ?blk = "source_chars cs1 src"
  note c = traits_copy_from_ReturnsD [OF copy]
  have fits: "0 + length ?blk \<le> size_get M cs1" using s1(4) c(2) by simp
  have "size_get M cs' = size_get M cs1"
    unfolding c(1) using s1(1) c(2)
    by (intro write_at_frame(4) [OF i1, where s = "count_of src"]) simp_all
  then show ?thesis using invariant_write_at [OF s1(3) fits] s1(4) c(1) by simp
qed

lemma assign_fill_invariant:
  assumes "instance_of M cs" and "assign_fill ndebug M cs n c = Returns v cs'"
  shows "invariant M cs' \<and> size_get M cs' = n"
proof -
  from assms(2) have "and_then (size_set M cs n) (\<lambda>_ cs1. traits_assign cs1 0 n c)
      = Returns v cs'"
    unfolding assign_fill_def by (auto split: if_splits)
  then obtain v1 cs1 where
    set: "size_set M cs n = Returns v1 cs1" and
    fill: "traits_assign cs1 0 n c = Returns v cs'"
    by (blast dest: and_then_ReturnsD)
  note s1 = size_set_ReturnsD [OF assms(1) set]
  have i1: "instance_of M cs1" using s1(3) by (simp add: invariant_def)
  from fill have cs': "cs' = write_at cs1 0 (replicate n c)" by (simp add: traits_assign_ReturnsD)
  have fits: "0 + length (replicate n c) \<le> size_get M cs1" using s1(4) by simp
  have "size_get M cs' = size_get M cs1"
    unfolding cs' using s1(1) by (intro write_at_frame(4) [OF i1, where s = n]) simp_all
  then show ?thesis using invariant_write_at [OF s1(3) fits] s1(4) cs' by simp
qed


lemma discard_ReturnsD: "discard r = Returns v s \<Longrightarrow> \<exists>v1. r = Returns v1 s"
  by (cases r) (simp_all add: discard_def and_then_def)

lemma index_op_ReturnsD: "index_op cs pos = Returns v cs' \<Longrightarrow> cs' = cs"
  by (simp add: index_op_def split: if_splits)

lemma at_ReturnsD: "at M cs pos = Returns v cs' \<Longrightarrow> cs' = cs"
  by (simp add: at_def index_op_def split: if_splits)

lemma exec_invariant:
  assumes "invariant M cs" and "operands_invariant M op" and "exec ndebug M op cs = Returns v cs'"
  shows "invariant M cs'"
proof -
  have i: "instance_of M cs" using assms(1) by (simp add: invariant_def)
  show ?thesis
  proof (cases op)
    case (Op_size s)
    then show ?thesis using assms(3) size_set_ReturnsD(3) [OF i] by simp
  next
    case (Op_resize n c)
    then show ?thesis using assms(3) resize_invariant [OF assms(1)] by auto
  next
    case (Op_resize_default n)
    then show ?thesis using assms(3) resize_invariant [OF assms(1)]
      by (auto simp: resize_default_def)
  next
    case Op_clear
    then show ?thesis using assms(3) size_set_ReturnsD(3) [OF i] by (simp add: clear_def)
  next
    case (Op_index pos)
    then show ?thesis using assms(1,3) by (auto dest!: discard_ReturnsD index_op_ReturnsD)
  next
    case (Op_at pos)
    then show ?thesis using assms(1,3) by (auto dest!: discard_ReturnsD at_ReturnsD)
  next
    case (Op_append_ptr s)
    then show ?thesis using assms(3) append_ptr_invariant [OF assms(1)] by auto
  next
    case (Op_append_cstr s)
    then show ?thesis using assms(3) append_ptr_invariant [OF assms(1)]
      by (auto simp: append_cstr_def)
  next
    case (Op_append_sv sv)
    then show ?thesis using assms(3) append_ptr_invariant [OF assms(1)]
      by (auto simp: append_sv_def)
  next
    case (Op_append_str M' str)
    then show ?thesis using assms(3) append_ptr_invariant [OF assms(1)]
      by (auto simp: append_str_def)
  next
    case (Op_append_substr sv pos n)
    then show ?thesis using assms(3) append_ptr_invariant [OF assms(1)]
      by (auto simp: append_substr_def append_sv_def split: sum.splits)
  next
    case (Op_append_fill n c)
    then show ?thesis using assms(3) append_fill_invariant [OF assms(1)] by auto
  next
    case (Op_append_range s)
    then show ?thesis using assms(3) append_ptr_invariant [OF assms(1)]
      by (auto simp: append_range_eq)
  next
    case (Op_push_back c)
    then show ?thesis using assms(3) append_fill_invariant [OF assms(1)]
      by (auto simp: push_back_def)
  next
    case (Op_assign_ptr s)
    then show ?thesis using assms(3) assign_ptr_invariant [OF i] by auto
  next
    case (Op_assign_cstr s)
    then show ?thesis using assms(3) assign_ptr_invariant [OF i]
      by (auto simp: assign_cstr_def dest!: noexcept_ReturnsD)
  next
    case (Op_assign_sv sv)
    then show ?thesis using assms(3) assign_ptr_invariant [OF i]
      by (auto simp: assign_sv_def)
  next
    case (Op_assign_str M' str)
    then show ?thesis using assms(3) assign_ptr_invariant [OF i]
      by (auto simp: assign_str_def)
  next
    case (Op_assign_substr sv pos n)
    then show ?thesis using assms(3) assign_ptr_invariant [OF i]
      by (auto simp: assign_substr_def assign_sv_def split: sum.splits)
  next
    case (Op_assign_fill n c)
    then show ?thesis using assms(3) assign_fill_invariant [OF i] by auto
  next
    case (Op_assign_range s)
    then show ?thesis using assms(3) assign_range_invariant [OF i] by auto
  next
    case (Op_assign_char c)
    then show ?thesis using assms(3) assign_fill_invariant [OF i]
      by (auto simp: assign_char_def dest!: noexcept_ReturnsD)
  next
    case (Op_copy_assign other)
    then show ?thesis using assms(2,3) by (auto simp: copy_assign_def)
  next
    case (Op_swap other)
    then show ?thesis using assms(2,3) by (auto simp: swap_def)
  qed
qed

lemma construct_invariant:
  assumes "instance_of M init" and "ctor_operands_invariant M k"
    and "construct ndebug M k init = Returns v cs'"
  shows "invariant M cs'"
proof (cases k)
  case Ctor_default
  then show ?thesis using assms(3) size_set_ReturnsD(3) [OF assms(1)]
    by (auto simp: ctor_default_def clear_def dest!: noexcept_ReturnsD)
next
  case (Ctor_copy other)
  then show ?thesis using assms(2,3) by (auto simp: copy_assign_def)
next
  case (Ctor_ptr s)
  then show ?thesis using assms(3) assign_ptr_invariant [OF assms(1)]
    by (auto simp: ctor_ptr_def dest!: noexcept_ReturnsD)
next
  case (Ctor_cstr s)
  then show ?thesis using assms(3) assign_ptr_invariant [OF assms(1)]
    by (auto simp: ctor_cstr_def ctor_ptr_def dest!: noexcept_ReturnsD)
next
  case (Ctor_sv sv)
  then show ?thesis using assms(3) assign_ptr_invariant [OF assms(1)]
    by (auto simp: ctor_sv_def ctor_ptr_def dest!: noexcept_ReturnsD)
next
  case (Ctor_substr sv pos n)
  then show ?thesis using assms(3) assign_ptr_invariant [OF assms(1)]
    by (auto simp: ctor_substr_def ctor_sv_def ctor_ptr_def split: sum.splits
        dest!: noexcept_ReturnsD)
next
  case (Ctor_str_pos M' str pos)
  then show ?thesis using assms(3) assign_ptr_invariant [OF assms(1)]
    by (auto simp: ctor_str_pos_def ctor_substr_def ctor_sv_def ctor_ptr_def split: sum.splits
        dest!: noexcept_ReturnsD)
next
  case (Ctor_str_pos_n M' str pos n)
  then show ?thesis using assms(3) assign_ptr_invariant [OF assms(1)]
    by (auto simp: ctor_str_pos_n_def ctor_substr_def ctor_sv_def ctor_ptr_def split: sum.splits
        dest!: noexcept_ReturnsD)
next
  case (Ctor_fill n c)
  then show ?thesis using assms(3) assign_fill_invariant [OF assms(1)]
    by (auto simp: ctor_fill_def)
next
  case (Ctor_range s)
  then show ?thesis using assms(3) assign_range_invariant [OF assms(1)]
    by (auto simp: ctor_range_def)
qed

lemma invariant_slots:
  assumes "invariant M cs"
  shows "size_get M cs \<le> M \<and> cs ! size_get M cs = 0 \<and>
         cs ! M = of_nat (M - size_get M cs) \<and> (size_get M cs = M \<longrightarrow> cs ! M = 0) \<and>
         length cs = M + 1"
  using assms by (auto simp: invariant_def instance_of_def)


subsection \<open>What assign and append return\<close>

lemma invariant_size_get:
  assumes "invariant M cs"
  shows "instance_of M cs" and "size_get M cs \<le> M" and "cs ! size_get M cs = 0"
    and "length cs = M + 1"
  using assms by (simp_all add: invariant_def instance_of_def)

lemma assign_ptr_returns:
  assumes "instance_of M cs" and "length s \<le> M"
  shows "assign_ptr ndebug M cs (Outside s)
           = Returns () (write_at ((cs[length s := 0])[M := of_nat (M - length s)]) 0 s)"
proof -
  have "length s \<le> length cs" using assms by (simp add: instance_of_def)
  then show ?thesis
    using assms
    by (simp add: assign_ptr_def count_of_def traits_copy_from_def size_set_returns
        traits_copy_def)
qed

lemma assign_range_returns:
  assumes "instance_of M cs" and "length s \<le> M"
  shows "assign_range M cs (Outside s)
           = Returns () (write_at ((cs[length s := 0])[M := of_nat (M - length s)]) 0 s)"
proof -
  have "length s \<le> length cs" using assms by (simp add: instance_of_def)
  then show ?thesis
    using assms size_get_after_set [OF assms]
    by (simp add: assign_range_def count_of_def first_n_def traits_copy_from_def
        size_set_returns traits_copy_def)
qed

lemma to_string_assigned:
  assumes "instance_of M cs" and "length s \<le> M"
  shows "to_string M (write_at ((cs[length s := 0])[M := of_nat (M - length s)]) 0 s) = s"
proof -
  let ?cs1 = "(cs[length s := 0])[M := of_nat (M - length s)]"
  have r: "assign_ptr True M cs (Outside s) = Returns () (write_at ?cs1 0 s)"
    by (rule assign_ptr_returns [OF assms])
  have sz: "size_get M (write_at ?cs1 0 s) = length s"
    using assign_ptr_invariant [OF assms(1) r] by (simp add: count_of_def)
  have "0 + length s \<le> length ?cs1" using assms by (simp add: instance_of_def)
  then have "take (0 + length s) (write_at ?cs1 0 s) = take 0 ?cs1 @ s"
    by (rule take_write_at_all)
  then show ?thesis by (simp add: to_string_def sz)
qed

lemma assign_ptr_inside_returns:
  assumes "instance_of M cs" and "n \<le> M" and "off + n \<le> M + 1"
  shows "assign_ptr ndebug M cs (Inside off n)
           = Returns () (write_at ((cs[n := 0])[M := of_nat (M - n)]) 0
               (take n (drop off ((cs[n := 0])[M := of_nat (M - n)]))))"
proof -
  let ?cs1 = "(cs[n := 0])[M := of_nat (M - n)]"
  have len: "length ?cs1 = M + 1" using assms(1) by (simp add: instance_of_def)
  have fits: "off + n \<le> length ?cs1" using assms(3) len by simp
  have "copy_forward ?cs1 0 off n = write_at ?cs1 0 (take n (drop off ?cs1))"
    by (rule copy_forward_ahead [OF _ fits]) simp
  then show ?thesis
    using assms len
    by (simp add: assign_ptr_def count_of_def traits_copy_from_def size_set_returns)
qed

lemma assign_range_inside_returns:
  assumes "instance_of M cs" and "n \<le> M" and "off + n \<le> M + 1"
  shows "assign_range M cs (Inside off n)
           = Returns () (write_at ((cs[n := 0])[M := of_nat (M - n)]) 0
               (take n (drop off ((cs[n := 0])[M := of_nat (M - n)]))))"
proof -
  let ?cs1 = "(cs[n := 0])[M := of_nat (M - n)]"
  have len: "length ?cs1 = M + 1" using assms(1) by (simp add: instance_of_def)
  have fits: "off + n \<le> length ?cs1" using assms(3) len by simp
  have "copy_forward ?cs1 0 off n = write_at ?cs1 0 (take n (drop off ?cs1))"
    by (rule copy_forward_ahead [OF _ fits]) simp
  then show ?thesis
    using assms len size_get_after_set [OF assms(1,2)]
    by (simp add: assign_range_def count_of_def first_n_def traits_copy_from_def
        size_set_returns)
qed

lemma to_string_inside_assigned:
  assumes "instance_of M cs" and "n < off" and "off + n \<le> M"
  shows "to_string M (write_at ((cs[n := 0])[M := of_nat (M - n)]) 0
           (take n (drop off ((cs[n := 0])[M := of_nat (M - n)]))))
         = take n (drop off cs)"
proof -
  let ?cs1 = "(cs[n := 0])[M := of_nat (M - n)]"
  let ?blk = "take n (drop off ?cs1)"
  have n: "n \<le> M" and fits: "off + n \<le> M + 1" using assms(3) by simp_all
  have r: "assign_ptr True M cs (Inside off n) = Returns () (write_at ?cs1 0 ?blk)"
    by (rule assign_ptr_inside_returns [OF assms(1) n fits])
  have sz: "size_get M (write_at ?cs1 0 ?blk) = n"
    using assign_ptr_invariant [OF assms(1) r] by (simp add: count_of_def)
  have "take n (drop off ?cs1) = take n (drop off (cs[n := 0]))"
    using assms(3) by (intro take_drop_update_outside) simp
  also have "\<dots> = take n (drop off cs)"
    using assms(2) by (intro take_drop_update_outside) simp
  finally have blk: "?blk = take n (drop off cs)" .
  have len: "length ?blk = n" using assms(1,3) by (simp add: instance_of_def)
  have "0 + length ?blk \<le> length ?cs1" using assms(1) n len by (simp add: instance_of_def)
  then have "take (0 + length ?blk) (write_at ?cs1 0 ?blk) = take 0 ?cs1 @ ?blk"
    by (rule take_write_at_all)
  then have "take n (write_at ?cs1 0 ?blk) = ?blk" using len by simp
  then have "to_string M (write_at ?cs1 0 ?blk) = ?blk" by (simp only: to_string_def sz)
  also note blk
  finally show ?thesis .
qed


subsection \<open>The comparisons of the standard library\<close>

lemma std_equal_iff: "std_equal xs ys \<longleftrightarrow> xs = ys"
  by (induction xs ys rule: std_equal.induct) auto

lemma char_less_irrefl [simp]: "\<not> char_less is_signed x x"
  by (simp add: char_less_def)

lemma char_less_asym: "char_less is_signed x y \<Longrightarrow> \<not> char_less is_signed y x"
  by (simp add: char_less_def split: if_splits)

lemma char_less_total:
  assumes "\<not> char_less is_signed x y" and "\<not> char_less is_signed y x"
  shows "x = y"
proof (cases is_signed)
  case True
  with assms have "sint x = sint y" by (simp add: char_less_def)
  then show ?thesis by (rule signed_word_eqI)
next
  case False
  with assms have "unat x = unat y" by (simp add: char_less_def)
  then show ?thesis by (rule unsigned_word_eqI)
qed

lemma std_lexicographical_compare_iff:
  "std_lexicographical_compare (char_less is_signed) xs ys \<longleftrightarrow>
     (xs, ys) \<in> lexord (char_order is_signed)"
proof (induction "char_less is_signed :: 'a word \<Rightarrow> 'a word \<Rightarrow> bool" xs ys
    rule: std_lexicographical_compare.induct)
  case (1 x xs y ys)
  then show ?case
    using char_less_asym [of is_signed x y] char_less_total [of is_signed x y]
    by (auto simp: char_order_def)
next
  case (2 y ys)
  then show ?case by simp
next
  case (3 xs)
  then show ?case by simp
qed

lemma asym_char_order: "asym (char_order is_signed)"
  by (auto intro!: asymI simp: char_order_def dest: char_less_asym)

lemma lexord_char_order_linear:
  "(xs, ys) \<in> lexord (char_order is_signed) \<or> xs = ys \<or> (ys, xs) \<in> lexord (char_order is_signed)"
  by (rule lexord_linear) (auto simp: char_order_def dest: char_less_total)

lemma lexord_char_order_irrefl: "(xs, xs) \<notin> lexord (char_order is_signed)"
  by (rule lexord_irreflexive) (simp add: char_order_def)

lemma not_lexord_char_order:
  "(ys, xs) \<notin> lexord (char_order is_signed) \<longleftrightarrow>
     (xs, ys) \<in> lexord (char_order is_signed) \<or> xs = ys"
  using lexord_char_order_linear [of xs ys is_signed]
    lexord_asymmetric [OF asym_char_order, of xs ys is_signed]
    lexord_char_order_irrefl [of xs is_signed]
  by blast

lemma to_sv_assigned:
  assumes "instance_of M cs" and "length s \<le> M"
  shows "to_sv M (write_at ((cs[length s := 0])[M := of_nat (M - length s)]) 0 s) = s"
  using to_string_assigned [OF assms] by (simp add: to_sv_def to_string_def)

lemma to_sv_within_characters:
  assumes "invariant M cs"
  shows "to_sv M cs = take (size_get M cs) (butlast cs)"
  using invariant_size_get [OF assms] by (simp add: to_sv_def take_butlast)

subsection \<open>Substrings and the calls that exceed the capacity\<close>

lemma substr_beyond: "length sv < pos \<Longrightarrow> substr sv pos n = Inl out_of_range"
  by (simp add: substr_def)

lemma substr_within:
  "pos \<le> length sv \<Longrightarrow> substr sv pos n = Inr (take n (drop pos sv))"
  by (simp add: substr_def min_def)

lemma ctor_ptr_returns:
  assumes "instance_of M init" and "length s \<le> M"
  shows "ctor_ptr ndebug M init s
           = Returns () (write_at ((init[length s := 0])[M := of_nat (M - length s)]) 0 s)"
  using assign_ptr_returns [OF assms, of ndebug] by (simp add: ctor_ptr_def)

lemma assign_ptr_beyond:
  assumes "M < count_of src"
  shows "assign_ptr False M cs src = Assert_Failed" and "assign_ptr True M cs src = Terminate"
  using assms by (simp_all add: assign_ptr_def size_set_throws noexcept_def)

lemma append_ptr_beyond:
  assumes "M < size_get M cs + length s" and "size_get M cs + length s < size_type_modulus"
  shows "append_ptr M cs s = Throws length_error cs"
  using assms by (simp add: append_ptr_def Let_def size_type_add_small size_set_throws)

section \<open>The claims of the specification\<close>

text \<open>
  Claim C1. For an object that satisfies the invariant, every public operation that returns
  normally leaves an array whose size is at most \<open>MaxSize\<close>, whose slot at the size holds
  the zero character and whose last slot holds \<open>MaxSize\<close> minus the size; when the size is
  \<open>MaxSize\<close> the terminator and the encoded size are the same cell, which holds zero. Every
  constructor that returns normally leaves such an array, whatever the storage held before.
\<close>

theorem invariant_after_every_operation:
  "(invariant M cs \<and> operands_invariant M op \<and> exec ndebug M op cs = Returns v cs' \<longrightarrow>
      size_get M cs' \<le> M \<and> cs' ! size_get M cs' = 0 \<and>
      cs' ! M = of_nat (M - size_get M cs') \<and> (size_get M cs' = M \<longrightarrow> cs' ! M = 0) \<and>
      length cs' = M + 1) \<and>
   (instance_of M init \<and> ctor_operands_invariant M k \<and>
    construct ndebug M k init = Returns w ds \<longrightarrow>
      size_get M ds \<le> M \<and> ds ! size_get M ds = 0 \<and>
      ds ! M = of_nat (M - size_get M ds) \<and> (size_get M ds = M \<longrightarrow> ds ! M = 0) \<and>
      length ds = M + 1)"
  using exec_invariant [of M cs op ndebug v cs'] construct_invariant [of M init k ndebug w ds]
    invariant_slots [of M cs'] invariant_slots [of M ds]
  by blast

theorem invariant_after_every_operation_witness:
  "exec True 5 (Op_resize 2 0) [104, 101, 108, 108, 111, 0 :: 8 word]
     = Returns () [104, 101, 0, 108, 111, 3] \<and>
   size_get 5 [104, 101, 0, 108, 111, 3 :: 8 word] = 2 \<and>
   [104, 101, 0, 108, 111, 3 :: 8 word] ! 2 = 0 \<and>
   [104, 101, 0, 108, 111, 3 :: 8 word] ! 5 = of_nat (5 - 2) \<and>
   construct True 5 Ctor_default [1, 2, 3, 4, 5, 6 :: 8 word] = Returns () [0, 2, 3, 4, 5, 5] \<and>
   size_get 5 [0, 2, 3, 4, 5, 5 :: 8 word] = 0"
proof -
  let ?hello = "[104, 101, 108, 108, 111, 0 :: 8 word]"
  let ?he = "[104, 101, 0, 108, 111, 3 :: 8 word]"
  have sz: "size_get 5 ?hello = 5" "size_get 5 ?he = 2" "size_get 5 [0, 2, 3, 4, 5, 5 :: 8 word] = 0"
    by (simp_all add: size_get_def size_type_sub_def max_size_def size_type_modulus_def)
  have inv: "invariant 5 ?hello"
    by (simp add: invariant_def instance_of_def sz)
  have ex: "exec True 5 (Op_resize 2 0) ?hello = Returns () ?he"
    by (simp add: resize_def sz size_set_def max_size_def)
  have ini: "instance_of 5 [1, 2, 3, 4, 5, 6 :: 8 word]"
    by (simp add: instance_of_def)
  have con: "construct True 5 Ctor_default [1, 2, 3, 4, 5, 6 :: 8 word]
      = Returns () [0, 2, 3, 4, 5, 5]"
    by (simp add: ctor_default_def clear_def size_set_def max_size_def)
  show ?thesis
    using invariant_after_every_operation
      [of 5 ?hello "Op_resize 2 0" True "()" ?he "[1, 2, 3, 4, 5, 6]" Ctor_default "()"
        "[0, 2, 3, 4, 5, 5]"] inv ex ini con sz
    by simp
qed

text \<open>
  Claim C2. For every \<open>n\<close> greater than \<open>MaxSize\<close>, \<open>resize (n, c)\<close> and \<open>resize (n)\<close> throw
  \<open>std::length_error\<close>, and the array at the throw is the array before the call: no slot has
  been written.
\<close>

theorem resize_beyond_capacity_fails:
  "M < n \<Longrightarrow> resize M cs n c = Throws length_error cs \<and>
     resize_default M cs n = Throws length_error cs"
  by (simp add: resize_def resize_default_def size_set_throws)

theorem resize_beyond_capacity_fails_witness:
  "resize 5 [104, 101, 108, 108, 111, 0 :: 8 word] 6 33
     = Throws length_error [104, 101, 108, 108, 111, 0] \<and>
   resize_default 5 [104, 101, 108, 108, 111, 0 :: 8 word] 6
     = Throws length_error [104, 101, 108, 108, 111, 0]"
  using resize_beyond_capacity_fails [of 5 6 "[104, 101, 108, 108, 111, 0 :: 8 word]" 33]
  by simp

text \<open>
  Claim C3, as the code has it. A call of \<open>assign (s, count)\<close> or of the constructor from a
  pointer and a count with \<open>count\<close> greater than \<open>MaxSize\<close> reports no recoverable error:
  with assertions compiled in the assertion fails, and with \<open>NDEBUG\<close> the length setter
  still throws, the exception meets \<open>noexcept\<close> and the program is terminated. A call of
  \<open>append (s, n)\<close> whose resulting size exceeds \<open>MaxSize\<close> (and does not overflow
  \<open>size_type\<close>) throws \<open>std::length_error\<close> in every build, with the array unchanged.
\<close>

theorem unchecked_assign_checked_append:
  "(M < length s \<longrightarrow>
      assign_ptr False M cs (Outside s) = Assert_Failed \<and>
      assign_ptr True M cs (Outside s) = Terminate \<and>
      ctor_ptr False M cs s = Assert_Failed \<and> ctor_ptr True M cs s = Terminate) \<and>
   (M < n \<longrightarrow>
      assign_ptr False M cs (Inside off n) = Assert_Failed \<and>
      assign_ptr True M cs (Inside off n) = Terminate) \<and>
   (invariant M cs \<and> M < size_get M cs + length s \<and>
    size_get M cs + length s < size_type_modulus \<longrightarrow>
      append_ptr M cs s = Throws length_error cs)"
  using assign_ptr_beyond [of M "Outside s" cs] assign_ptr_beyond [of M "Inside off n" cs]
    append_ptr_beyond [of M cs s]
  by (simp add: ctor_ptr_def noexcept_def count_of_def)

theorem unchecked_assign_checked_append_witness:
  "assign_ptr False 5 [104, 101, 108, 108, 111, 0 :: 8 word]
     (Outside [119, 111, 114, 108, 100, 33]) = Assert_Failed \<and>
   assign_ptr True 5 [104, 101, 108, 108, 111, 0 :: 8 word]
     (Outside [119, 111, 114, 108, 100, 33]) = Terminate \<and>
   ctor_ptr False 5 [104, 101, 108, 108, 111, 0 :: 8 word] [119, 111, 114, 108, 100, 33]
     = Assert_Failed \<and>
   ctor_ptr True 5 [104, 101, 108, 108, 111, 0 :: 8 word] [119, 111, 114, 108, 100, 33]
     = Terminate \<and>
   assign_ptr True 5 [104, 101, 108, 108, 111, 0 :: 8 word] (Inside 0 6) = Terminate \<and>
   append_ptr 5 [104, 101, 108, 108, 111, 0 :: 8 word] [119, 111, 114, 108, 100, 33]
     = Throws length_error [104, 101, 108, 108, 111, 0]"
proof -
  let ?hello = "[104, 101, 108, 108, 111, 0 :: 8 word]"
  have sz: "size_get 5 ?hello = 5"
    by (simp add: size_get_def size_type_sub_def max_size_def size_type_modulus_def)
  have inv: "invariant 5 ?hello" by (simp add: invariant_def instance_of_def sz)
  have m: "(11 :: nat) < size_type_modulus" by (simp add: size_type_modulus_def)
  show ?thesis
    using unchecked_assign_checked_append
      [where M = 5 and s = "[119, 111, 114, 108, 100, 33]" and cs = ?hello and n = 6
         and off = 0]
      inv sz m
    by simp
qed

text \<open>
  The claim as the specification states it says that no recoverable error is reported by
  \<open>append (s, n)\<close> either. Appending one character to the full capacity-5 string \<open>hello\<close>
  throws \<open>std::length_error\<close>.
\<close>

theorem append_reports_length_error_counterexample:
  "append_ptr 5 [104, 101, 108, 108, 111, 0 :: 8 word] [33]
     = Throws length_error [104, 101, 108, 108, 111, 0]"
  by (simp add: append_ptr_def size_get_def size_type_sub_def size_type_add_def
      size_type_modulus_def max_size_def size_set_def)

text \<open>
  Claim C4, as the code has it. For every sequence \<open>s\<close> of at most \<open>MaxSize\<close> characters
  that the length setter does not overwrite before the copy reads it, \<open>assign (s)\<close> returns
  normally and \<open>to_string\<close> of the object is then exactly \<open>s\<close>. Such is a sequence held
  outside the array of the object, and such is a range of \<open>n\<close> slots of the array from
  \<open>off\<close> on that starts behind the slot \<open>n\<close> and ends before the last slot. This holds for
  the overload that takes a view, for the one that takes a pointer and a count and for the
  one that takes an iterator range, in both build modes.
\<close>

theorem assign_then_to_string:
  assumes "instance_of M cs"
  shows "(length s \<le> M \<longrightarrow>
            (\<exists>cs'. assign_sv ndebug M cs (Outside s) = Returns () cs' \<and>
               to_string M cs' = s) \<and>
            (\<exists>cs'. assign_ptr ndebug M cs (Outside s) = Returns () cs' \<and>
               to_string M cs' = s) \<and>
            (\<exists>cs'. assign_range M cs (Outside s) = Returns () cs' \<and>
               to_string M cs' = s)) \<and>
         (n < off \<and> off + n \<le> M \<longrightarrow>
            (\<exists>cs'. assign_sv ndebug M cs (Inside off n) = Returns () cs' \<and>
               to_string M cs' = source_chars cs (Inside off n)) \<and>
            (\<exists>cs'. assign_ptr ndebug M cs (Inside off n) = Returns () cs' \<and>
               to_string M cs' = source_chars cs (Inside off n)) \<and>
            (\<exists>cs'. assign_range M cs (Inside off n) = Returns () cs' \<and>
               to_string M cs' = source_chars cs (Inside off n)))"
proof -
  have outside: "length s \<le> M \<Longrightarrow>
      (\<exists>cs'. assign_sv ndebug M cs (Outside s) = Returns () cs' \<and> to_string M cs' = s) \<and>
      (\<exists>cs'. assign_ptr ndebug M cs (Outside s) = Returns () cs' \<and> to_string M cs' = s) \<and>
      (\<exists>cs'. assign_range M cs (Outside s) = Returns () cs' \<and> to_string M cs' = s)"
    using assign_ptr_returns [OF assms, of s ndebug] assign_range_returns [OF assms, of s]
      to_string_assigned [OF assms, of s]
    by (simp add: assign_sv_def)
  have inside: "(\<exists>cs'. assign_sv ndebug M cs (Inside off n) = Returns () cs' \<and>
         to_string M cs' = source_chars cs (Inside off n)) \<and>
      (\<exists>cs'. assign_ptr ndebug M cs (Inside off n) = Returns () cs' \<and>
         to_string M cs' = source_chars cs (Inside off n)) \<and>
      (\<exists>cs'. assign_range M cs (Inside off n) = Returns () cs' \<and>
         to_string M cs' = source_chars cs (Inside off n))"
    if "n < off" and "off + n \<le> M"
  proof -
    have n: "n \<le> M" and fits: "off + n \<le> M + 1" using that(2) by simp_all
    show ?thesis
      using assign_ptr_inside_returns [OF assms n fits, of ndebug]
        assign_range_inside_returns [OF assms n fits]
        to_string_inside_assigned [OF assms that]
      by (simp add: assign_sv_def source_chars_def)
  qed
  show ?thesis using outside inside by blast
qed

theorem assign_then_to_string_witness:
  "assign_sv True 5 [1, 2, 3, 4, 5, 6 :: 8 word] (Outside [104, 101, 108, 108, 111])
     = Returns () [104, 101, 108, 108, 111, 0] \<and>
   to_string 5 [104, 101, 108, 108, 111, 0 :: 8 word] = [104, 101, 108, 108, 111] \<and>
   assign_ptr True 5 [104, 101, 108, 108, 111, 0 :: 8 word] (Inside 3 2)
     = Returns () [108, 111, 0, 108, 111, 3] \<and>
   to_string 5 [108, 111, 0, 108, 111, 3 :: 8 word] = [108, 111] \<and>
   source_chars [104, 101, 108, 108, 111, 0 :: 8 word] (Inside 3 2) = [108, 111]"
proof -
  let ?hello = "[104, 101, 108, 108, 111, 0 :: 8 word]"
  have i: "instance_of 5 [1, 2, 3, 4, 5, 6 :: 8 word]" "instance_of 5 ?hello"
    by (simp_all add: instance_of_def)
  have r: "assign_sv True 5 [1, 2, 3, 4, 5, 6 :: 8 word] (Outside [104, 101, 108, 108, 111])
      = Returns () [104, 101, 108, 108, 111, 0]"
    by (simp add: assign_sv_def assign_ptr_def count_of_def traits_copy_from_def size_set_def
        max_size_def traits_copy_def write_at_def)
  have q: "assign_ptr True 5 ?hello (Inside 3 2) = Returns () [108, 111, 0, 108, 111, 3]"
    using assign_ptr_inside_returns [OF i(2), of 2 3 True] by (simp add: write_at_def)
  show ?thesis
    using assign_then_to_string
      [OF i(1), where s = "[104, 101, 108, 108, 111]" and ndebug = True and n = 0 and off = 1]
      assign_then_to_string
      [OF i(2), where s = "[]" and ndebug = True and n = 2 and off = 3]
      r q
    by (simp add: source_chars_def)
qed

text \<open>
  The claim as the specification states it holds for every sequence. A sequence that lies
  in the array of the object is read after \<open>size (count)\<close> has stored the terminator: from
  the capacity-5 string \<open>hello\<close>, \<open>assign (data () + 2, 2)\<close> leaves a zero and \<open>l\<close> where the
  source was \<open>ll\<close>, and the substring assignment of the object's own characters at offset 1
  with count 2 leaves \<open>e\<close> and a zero where the source was \<open>el\<close>.
\<close>

theorem assign_own_characters_counterexample:
  "assign_ptr True 5 [104, 101, 108, 108, 111, 0 :: 8 word] (Inside 2 2)
     = Returns () [0, 108, 0, 108, 111, 3] \<and>
   to_string 5 [0, 108, 0, 108, 111, 3 :: 8 word] = [0, 108] \<and>
   source_chars [104, 101, 108, 108, 111, 0 :: 8 word] (Inside 2 2) = [108, 108] \<and>
   assign_substr True 5 [104, 101, 108, 108, 111, 0 :: 8 word] (Inside 0 5) 1 2
     = Returns () [101, 0, 0, 108, 111, 3] \<and>
   to_string 5 [101, 0, 0, 108, 111, 3 :: 8 word] = [101, 0] \<and>
   source_chars [104, 101, 108, 108, 111, 0 :: 8 word] (Inside 1 2) = [101, 108]"
proof -
  let ?hello = "[104, 101, 108, 108, 111, 0 :: 8 word]"
  have i: "instance_of 5 ?hello" by (simp add: instance_of_def)
  have sz: "size_get 5 [0, 108, 0, 108, 111, 3 :: 8 word] = 2"
    "size_get 5 [101, 0, 0, 108, 111, 3 :: 8 word] = 2"
    by (simp_all add: size_get_def size_type_sub_def max_size_def size_type_modulus_def)
  have a: "assign_ptr True 5 ?hello (Inside 2 2) = Returns () [0, 108, 0, 108, 111, 3]"
    using assign_ptr_inside_returns [OF i, of 2 2 True] by (simp add: write_at_def)
  have b: "assign_ptr True 5 ?hello (Inside 1 2) = Returns () [101, 0, 0, 108, 111, 3]"
    using assign_ptr_inside_returns [OF i, of 2 1 True] by (simp add: write_at_def)
  have c: "assign_substr True 5 ?hello (Inside 0 5) 1 2 = Returns () [101, 0, 0, 108, 111, 3]"
    using b by (simp add: assign_substr_def substr_source_def assign_sv_def)
  show ?thesis using a c sz by (simp add: to_string_def source_chars_def)
qed



text \<open>
  Claim C6. For two objects of the same capacity the six relational operators compare the
  sequences of the first \<open>size ()\<close> characters: \<open>==\<close> is equality of the two sequences,
  \<open><\<close> is the lexicographic order over the order of the characters, and the other four
  are the corresponding relations. The compared characters lie in the slots before the
  size, so neither the terminator nor the last slot is among them, and the contents of the
  slots behind the size do not matter. With \<open>foo\<close> and \<open>foobar\<close> assigned to two
  objects of one capacity of at least 6, the first is less than the second.
\<close>

theorem relational_operators_lexicographic:
  fixes a b c d foo foobar :: "'a::len word list"
  shows
  "(op_eq M a b \<longleftrightarrow> to_sv M a = to_sv M b) \<and>
   (op_ne M a b \<longleftrightarrow> to_sv M a \<noteq> to_sv M b) \<and>
   (op_lt is_signed M a b \<longleftrightarrow> (to_sv M a, to_sv M b) \<in> lexord (char_order is_signed)) \<and>
   (op_gt is_signed M a b \<longleftrightarrow> (to_sv M b, to_sv M a) \<in> lexord (char_order is_signed)) \<and>
   (op_le is_signed M a b \<longleftrightarrow>
      (to_sv M a, to_sv M b) \<in> lexord (char_order is_signed) \<or> to_sv M a = to_sv M b) \<and>
   (op_ge is_signed M a b \<longleftrightarrow>
      (to_sv M b, to_sv M a) \<in> lexord (char_order is_signed) \<or> to_sv M a = to_sv M b) \<and>
   (invariant M a \<longrightarrow> to_sv M a = take (size_get M a) (butlast a)) \<and>
   (6 \<le> M \<and> instance_of M c \<and> instance_of M d \<and>
    assign_sv ndebug M c (Outside [102, 111, 111]) = Returns () foo \<and>
    assign_sv ndebug M d (Outside [102, 111, 111, 98, 97, 114]) = Returns () foobar \<longrightarrow>
      op_lt is_signed M foo foobar)"
proof -
  have ex: "op_lt is_signed M foo foobar"
    if "6 \<le> M" and c: "instance_of M c" and d: "instance_of M d"
      and foo: "assign_sv ndebug M c (Outside [102, 111, 111]) = Returns () foo"
      and foobar:
        "assign_sv ndebug M d (Outside [102, 111, 111, 98, 97, 114]) = Returns () foobar"
  proof -
    have l3: "length [102, 111, 111 :: 'a word] \<le> M"
      and l6: "length [102, 111, 111, 98, 97, 114 :: 'a word] \<le> M"
      using that(1) by simp_all
    have "to_sv M foo = [102, 111, 111]"
      using foo assign_ptr_returns [OF c l3, of ndebug] to_sv_assigned [OF c l3]
      by (simp add: assign_sv_def)
    moreover have "to_sv M foobar = [102, 111, 111] @ [98, 97, 114]"
      using foobar assign_ptr_returns [OF d l6, of ndebug] to_sv_assigned [OF d l6]
      by (simp add: assign_sv_def)
    moreover have "([102, 111, 111 :: 'a word], [102, 111, 111] @ [98, 97, 114])
        \<in> lexord (char_order is_signed)"
      by (rule lexord_append_rightI) blast
    ultimately have "(to_sv M foo, to_sv M foobar) \<in> lexord (char_order is_signed)"
      by (simp only:)
    then show ?thesis by (simp add: op_lt_def std_lexicographical_compare_iff)
  qed
  show ?thesis
    using ex to_sv_within_characters [of M a]
      not_lexord_char_order [of "to_sv M b" "to_sv M a" is_signed]
      not_lexord_char_order [of "to_sv M a" "to_sv M b" is_signed]
    by (simp add: op_eq_def op_ne_def op_lt_def op_gt_def op_le_def op_ge_def std_equal_iff
        std_lexicographical_compare_iff eq_commute)
qed


theorem relational_operators_lexicographic_witness:
  "op_lt True 6 [102, 111, 111, 0, 5, 6, 3 :: 8 word] [102, 111, 111, 98, 97, 114, 0] \<and>
   op_le True 6 [102, 111, 111, 0, 5, 6, 3 :: 8 word] [102, 111, 111, 98, 97, 114, 0] \<and>
   \<not> op_ge True 6 [102, 111, 111, 0, 5, 6, 3 :: 8 word] [102, 111, 111, 98, 97, 114, 0] \<and>
   op_eq 6 [102, 111, 111, 0, 5, 6, 3 :: 8 word] [102, 111, 111, 0, 9, 9, 3] \<and>
   to_sv 6 [102, 111, 111, 0, 5, 6, 3 :: 8 word] = [102, 111, 111]"
proof -
  let ?init = "[1, 2, 3, 4, 5, 6, 7 :: 8 word]"
  let ?foo = "[102, 111, 111, 0, 5, 6, 3 :: 8 word]"
  let ?foobar = "[102, 111, 111, 98, 97, 114, 0 :: 8 word]"
  let ?foo' = "[102, 111, 111, 0, 9, 9, 3 :: 8 word]"
  have sz: "size_get 6 ?foo = 3" "size_get 6 ?foobar = 6" "size_get 6 ?foo' = 3"
    by (simp_all add: size_get_def size_type_sub_def max_size_def size_type_modulus_def)
  have sv: "to_sv 6 ?foo = [102, 111, 111]" "to_sv 6 ?foo' = [102, 111, 111]"
    "to_sv 6 ?foobar = [102, 111, 111, 98, 97, 114]"
    by (simp_all add: to_sv_def sz)
  have i: "instance_of 6 ?init" by (simp add: instance_of_def)
  have inv: "invariant 6 ?foo" by (simp add: invariant_def instance_of_def sz)
  have a1: "assign_sv True 6 ?init (Outside [102, 111, 111]) = Returns () ?foo"
    by (simp add: assign_sv_def assign_ptr_def count_of_def traits_copy_from_def size_set_def
        max_size_def traits_copy_def write_at_def)
  have a2: "assign_sv True 6 ?init (Outside [102, 111, 111, 98, 97, 114]) = Returns () ?foobar"
    by (simp add: assign_sv_def assign_ptr_def count_of_def traits_copy_from_def size_set_def
        max_size_def traits_copy_def write_at_def)
  have lt: "op_lt True 6 ?foo ?foobar"
    using relational_operators_lexicographic
      [of 6 ?foo ?foobar True ?init ?init True ?foo ?foobar] i a1 a2 by blast
  have ge: "op_le True 6 ?foo ?foobar \<and> \<not> op_ge True 6 ?foo ?foobar"
    using lt by (simp add: op_le_def op_ge_def op_lt_def sv char_less_def)
  have same: "to_sv 6 ?foo = to_sv 6 ?foo'" by (simp add: sv)
  have eq: "op_eq 6 ?foo ?foo'"
    using relational_operators_lexicographic
      [of 6 ?foo ?foo' True ?init ?init True ?foo ?foobar] same by blast
  show ?thesis using lt ge eq sv by simp
qed

text \<open>
  Claim C7. For an object that satisfies the invariant, \<open>at (pos)\<close> throws exactly when
  \<open>pos\<close> is at least \<open>size ()\<close>; what it throws is \<open>std::out_of_range\<close>, with the array
  unchanged, and otherwise it returns the character at \<open>pos\<close>. So \<open>at (size ())\<close> always throws
  and \<open>at (size () - 1)\<close> on a non-empty object returns.
\<close>

theorem at_checked:
  assumes "invariant M cs"
  shows "((\<exists>e s. at M cs pos = Throws e s) \<longleftrightarrow> pos \<ge> size_get M cs) \<and>
         (pos \<ge> size_get M cs \<longrightarrow> at M cs pos = Throws out_of_range cs) \<and>
         (pos < size_get M cs \<longrightarrow> at M cs pos = Returns (cs ! pos) cs) \<and>
         at M cs (size_get M cs) = Throws out_of_range cs \<and>
         (size_get M cs \<noteq> 0 \<longrightarrow>
            at M cs (size_type_sub (size_get M cs) 1)
              = Returns (cs ! (size_get M cs - 1)) cs)"
proof -
  note i = invariant_size_get [OF assms]
  have m: "size_get M cs < size_type_modulus"
    using i(2) instance_of_fits_size_type [OF i(1)] by linarith
  have ok: "at M cs p = Returns (cs ! p) cs" if "p < size_get M cs" for p
    using that i(2,4) by (simp add: at_def index_op_def)
  have "size_type_sub (size_get M cs) 1 = size_get M cs - 1" if "size_get M cs \<noteq> 0"
    using that m by (intro size_type_sub_le) simp_all
  then show ?thesis using ok [of pos] ok [of "size_get M cs - 1"]
    by (auto simp: at_def)
qed


theorem at_checked_witness:
  "at 5 [104, 101, 0, 108, 111, 3 :: 8 word] 4
     = Throws out_of_range [104, 101, 0, 108, 111, 3] \<and>
   at 5 [104, 101, 0, 108, 111, 3 :: 8 word] 2
     = Throws out_of_range [104, 101, 0, 108, 111, 3] \<and>
   at 5 [104, 101, 0, 108, 111, 3 :: 8 word] 1 = Returns 101 [104, 101, 0, 108, 111, 3]"
proof -
  let ?he = "[104, 101, 0, 108, 111, 3 :: 8 word]"
  have sz: "size_get 5 ?he = 2"
    by (simp add: size_get_def size_type_sub_def max_size_def size_type_modulus_def)
  have inv: "invariant 5 ?he" by (simp add: invariant_def instance_of_def sz)
  have one: "size_type_sub 2 1 = 1" by (simp add: size_type_sub_def size_type_modulus_def)
  show ?thesis using at_checked [OF inv, of 4] sz one by simp
qed

text \<open>
  Claim C8, as the code has it. A constructor from a view, or from another object, with an
  offset and a count goes through \<open>substr\<close>: an offset greater than the length of the source
  throws \<open>std::out_of_range\<close> and leaves the storage untouched; an offset up to the length
  gives the characters from the offset on, at most \<open>n\<close> of them, provided that many fit the
  capacity; an offset equal to the length gives the empty string.
\<close>

theorem substring_constructors:
  "(length sv < pos \<longrightarrow> ctor_substr ndebug M init sv pos n = Throws out_of_range init) \<and>
   (instance_of M init \<and> pos \<le> length sv \<and> min n (length sv - pos) \<le> M \<longrightarrow>
      (\<exists>cs. ctor_substr ndebug M init sv pos n = Returns () cs \<and> invariant M cs \<and>
         size_get M cs = min n (length sv - pos) \<and> to_sv M cs = take n (drop pos sv))) \<and>
   (instance_of M init \<and> pos = length sv \<longrightarrow>
      (\<exists>cs. ctor_substr ndebug M init sv pos n = Returns () cs \<and> empty_str M cs)) \<and>
   ctor_str_pos_n ndebug M init M' str pos n
     = ctor_substr ndebug M init (to_sv M' str) pos n \<and>
   ctor_str_pos ndebug M init M' str pos
     = ctor_substr ndebug M init (to_sv M' str) pos npos"
proof -
  have within: "\<exists>cs. ctor_substr ndebug M init sv pos n = Returns () cs \<and> invariant M cs \<and>
         size_get M cs = min n (length sv - pos) \<and> to_sv M cs = take n (drop pos sv)"
    if i: "instance_of M init" and p: "pos \<le> length sv" and m: "min n (length sv - pos) \<le> M"
  proof -
    let ?v = "take n (drop pos sv)"
    have l: "length ?v \<le> M" using m by (simp add: min.commute)
    let ?cs = "write_at ((init[length ?v := 0])[M := of_nat (M - length ?v)]) 0 ?v"
    have r: "ctor_substr ndebug M init sv pos n = Returns () ?cs"
      using ctor_ptr_returns [OF i l, of ndebug]
      by (simp add: ctor_substr_def substr_within [OF p] ctor_sv_def)
    have a: "assign_ptr ndebug M init (Outside ?v) = Returns () ?cs"
      by (rule assign_ptr_returns [OF i l])
    have "invariant M ?cs \<and> size_get M ?cs = length ?v"
      using assign_ptr_invariant [OF i a] by (simp add: count_of_def)
    moreover have "to_sv M ?cs = ?v" by (rule to_sv_assigned [OF i l])
    ultimately show ?thesis using r by (auto simp: min.commute)
  qed
  have "\<exists>cs. ctor_substr ndebug M init sv pos n = Returns () cs \<and> empty_str M cs"
    if i: "instance_of M init" and p: "pos = length sv"
    using within [OF i] p by (auto simp: empty_str_def)
  then show ?thesis
    using within by (simp add: ctor_substr_def substr_beyond ctor_str_pos_n_def ctor_str_pos_def)
qed

theorem substring_constructors_witness:
  "ctor_substr True 5 [1, 2, 3, 4, 5, 6 :: 8 word]
      [104, 101, 108, 108, 111, 32, 119, 111, 114, 108, 100] 6 100
     = Returns () [119, 111, 114, 108, 100, 0] \<and>
   to_sv 5 [119, 111, 114, 108, 100, 0 :: 8 word] = [119, 111, 114, 108, 100] \<and>
   ctor_substr True 5 [1, 2, 3, 4, 5, 6 :: 8 word]
      [104, 101, 108, 108, 111, 32, 119, 111, 114, 108, 100] 12 100
     = Throws out_of_range [1, 2, 3, 4, 5, 6] \<and>
   ctor_substr True 5 [1, 2, 3, 4, 5, 6 :: 8 word]
      [104, 101, 108, 108, 111, 32, 119, 111, 114, 108, 100] 11 100
     = Returns () [0, 2, 3, 4, 5, 5]"
proof -
  let ?init = "[1, 2, 3, 4, 5, 6 :: 8 word]"
  let ?sv = "[104, 101, 108, 108, 111, 32, 119, 111, 114, 108, 100 :: 8 word]"
  have i: "instance_of 5 ?init" by (simp add: instance_of_def)
  have r: "ctor_substr True 5 ?init ?sv 6 100 = Returns () [119, 111, 114, 108, 100, 0]"
    "ctor_substr True 5 ?init ?sv 11 100 = Returns () [0, 2, 3, 4, 5, 5]"
    by (simp_all add: ctor_substr_def substr_def ctor_sv_def ctor_ptr_def assign_ptr_def
        count_of_def traits_copy_from_def size_set_def max_size_def traits_copy_def
        write_at_def)
  have sz: "size_get 5 [119, 111, 114, 108, 100, 0 :: 8 word] = 5"
    by (simp add: size_get_def size_type_sub_def max_size_def size_type_modulus_def)
  show ?thesis
    using substring_constructors [of ?sv 12 True 5 ?init 100] r sz
      substring_constructors [of ?sv 6 True 5 ?init 100] i
    by (simp add: to_sv_def)
qed

text \<open>
  The claim as the specification states it lets an offset beyond the length yield the empty
  string. Offset 4 into the three characters \<open>abc\<close> throws instead.
\<close>

theorem substring_offset_beyond_counterexample:
  "ctor_str_pos True 5 [1, 2, 3, 4, 5, 6 :: 8 word] 3 [97, 98, 99, 0] 4
     = Throws out_of_range [1, 2, 3, 4, 5, 6] \<and>
   ctor_substr True 5 [1, 2, 3, 4, 5, 6 :: 8 word] [97, 98, 99] 4 2
     = Throws out_of_range [1, 2, 3, 4, 5, 6]"
  by (simp add: ctor_str_pos_def ctor_substr_def substr_def to_sv_def size_get_def
      size_type_sub_def size_type_modulus_def max_size_def)

text \<open>
  Claim C9. The default constructor returns normally on any storage; the object then has
  size zero, \<open>empty ()\<close> holds, the first slot holds the zero character, and the sequence a
  reader of the raw pointer finds before the first zero is empty.
\<close>

theorem default_constructed_is_empty:
  assumes "instance_of M init"
  shows "ctor_default M init = Returns () ((init[0 := 0])[M := of_nat M]) \<and>
         size_get M ((init[0 := 0])[M := of_nat M]) = 0 \<and>
         empty_str M ((init[0 := 0])[M := of_nat M]) \<and>
         ((init[0 := 0])[M := of_nat M]) ! 0 = 0 \<and>
         traits_length (c_str ((init[0 := 0])[M := of_nat M])) = 0 \<and>
         to_sv M ((init[0 := 0])[M := of_nat M]) = []"
proof -
  let ?cs = "(init[0 := 0])[M := of_nat (M - 0)]"
  have r: "ctor_default M init = Returns () ?cs"
    using size_set_returns [OF assms, of 0] by (simp add: ctor_default_def clear_def)
  have s: "size_get M ?cs = 0" using size_get_after_set [OF assms, of 0] by simp
  have z: "?cs ! 0 = 0" using terminator_after_set [OF assms, of 0] by simp
  have "length ?cs = M + 1" using assms by (simp add: instance_of_def)
  then obtain x xs where "?cs = x # xs" by (cases ?cs) auto
  with z have "traits_length (c_str ?cs) = 0" by (simp add: traits_length_def c_str_def)
  then show ?thesis using r s z by (simp add: empty_str_def to_sv_def)
qed

theorem default_constructed_is_empty_witness:
  "ctor_default 5 [1, 2, 3, 4, 5, 6 :: 8 word] = Returns () [0, 2, 3, 4, 5, 5] \<and>
   size_get 5 [0, 2, 3, 4, 5, 5 :: 8 word] = 0 \<and>
   empty_str 5 [0, 2, 3, 4, 5, 5 :: 8 word] \<and>
   traits_length (c_str [0, 2, 3, 4, 5, 5 :: 8 word]) = 0"
proof -
  have i: "instance_of 5 [1, 2, 3, 4, 5, 6 :: 8 word]" by (simp add: instance_of_def)
  show ?thesis using default_constructed_is_empty [OF i] by simp
qed

text \<open>
  Claim C10, as the code has it. \<open>append (s, n)\<close> whose resulting size exceeds \<open>MaxSize\<close>
  (and does not overflow \<open>size_type\<close>) and \<open>push_back\<close> on a full object throw
  \<open>std::length_error\<close> in every build before any character is copied: the array at the
  throw is the array before the call. \<open>assign (s, count)\<close> with \<open>count\<close> greater than
  \<open>MaxSize\<close> does not throw it: the assertion fails in a debug build, and with \<open>NDEBUG\<close>
  the exception of the length setter ends the program at the \<open>noexcept\<close> boundary.
\<close>

theorem growth_beyond_capacity:
  "(invariant M cs \<and> M < size_get M cs + length s \<and>
    size_get M cs + length s < size_type_modulus \<longrightarrow>
      append_ptr M cs s = Throws length_error cs) \<and>
   (invariant M cs \<and> size_get M cs = M \<longrightarrow> push_back M cs c = Throws length_error cs) \<and>
   (M < length s \<longrightarrow>
      assign_ptr ndebug M cs (Outside s) = (if ndebug then Terminate else Assert_Failed)) \<and>
   (M < n \<longrightarrow>
      assign_ptr ndebug M cs (Inside off n) = (if ndebug then Terminate else Assert_Failed))"
proof -
  have "push_back M cs c = Throws length_error cs" if "invariant M cs" and "size_get M cs = M"
  proof -
    have "M + 1 < size_type_modulus"
      using instance_of_fits_size_type invariant_size_get(1) [OF that(1)] by blast
    then have "size_type_add (size_get M cs) 1 = M + 1"
      using that(2) size_type_add_small [of M 1] by simp
    then show ?thesis
      by (simp add: push_back_def append_fill_def resize_def size_set_throws)
  qed
  then show ?thesis
    using assign_ptr_beyond [of M "Outside s" cs] assign_ptr_beyond [of M "Inside off n" cs]
      append_ptr_beyond [of M cs s]
    by (simp add: count_of_def)
qed

theorem growth_beyond_capacity_witness:
  "append_ptr 5 [104, 101, 0, 108, 111, 3 :: 8 word] [108, 108, 111, 33]
     = Throws length_error [104, 101, 0, 108, 111, 3] \<and>
   push_back 5 [104, 101, 108, 108, 111, 0 :: 8 word] 33
     = Throws length_error [104, 101, 108, 108, 111, 0] \<and>
   assign_ptr True 5 [104, 101, 108, 108, 111, 0 :: 8 word]
     (Outside [119, 111, 114, 108, 100, 33]) = Terminate \<and>
   assign_ptr False 5 [104, 101, 108, 108, 111, 0 :: 8 word] (Inside 0 6) = Assert_Failed"
proof -
  let ?hello = "[104, 101, 108, 108, 111, 0 :: 8 word]"
  let ?he = "[104, 101, 0, 108, 111, 3 :: 8 word]"
  have sz: "size_get 5 ?hello = 5" "size_get 5 ?he = 2"
    by (simp_all add: size_get_def size_type_sub_def max_size_def size_type_modulus_def)
  have inv: "invariant 5 ?hello" "invariant 5 ?he"
    by (simp_all add: invariant_def instance_of_def sz)
  have m: "(6 :: nat) < size_type_modulus" by (simp add: size_type_modulus_def)
  show ?thesis
    using growth_beyond_capacity
      [where M = 5 and cs = ?he and s = "[108, 108, 111, 33]" and c = 33 and ndebug = True
         and n = 6 and off = 0]
      growth_beyond_capacity
      [where M = 5 and cs = ?hello and s = "[119, 111, 114, 108, 100, 33]" and c = 33
         and ndebug = True and n = 6 and off = 0]
      growth_beyond_capacity
      [where M = 5 and cs = ?hello and s = "[119, 111, 114, 108, 100, 33]" and c = 33
         and ndebug = False and n = 6 and off = 0]
      inv sz m
    by simp
qed

text \<open>
  The claim as stated has \<open>assign (s, count)\<close> raise the same recoverable error as
  \<open>resize\<close>. Assigning six characters to a capacity-5 object ends the program in both
  build modes.
\<close>

theorem assign_not_length_error_counterexample:
  "assign_ptr True 5 [104, 101, 108, 108, 111, 0 :: 8 word]
     (Outside [119, 111, 114, 108, 100, 33]) = Terminate \<and>
   assign_ptr False 5 [104, 101, 108, 108, 111, 0 :: 8 word]
     (Outside [119, 111, 114, 108, 100, 33]) = Assert_Failed"
  by (simp add: assign_ptr_def count_of_def size_set_def max_size_def noexcept_def)

end
